theory Spec2Isabelle
  imports Complex_Main
begin

section \<open>Arrays, errors and non-returning calls\<close>

text \<open>
  The programs are the tutorial \<^verbatim>\<open>optimal_control_mpc.py\<close> and the flax model of
  \<^verbatim>\<open>state_space.py\<close>. A one-dimensional array of shape \<open>(n,)\<close> is a list, a two-dimensional
  array of shape \<open>(r, c)\<close> is the list of its \<open>r\<close> rows; the list of rows of an array with
  no row does not record its column count. An exception is a value \<open>Inl e\<close>; a call that
  does not return is \<open>None\<close>. \<open>ShapeError\<close> stands for the exception that an operation raises
  on arrays of shapes that do not fit (a \<^verbatim>\<open>TypeError\<close> or \<^verbatim>\<open>ValueError\<close> of JAX).
\<close>

datatype error = IndexError | ShapeError | AttributeError | UnboundLocalError | TypeError

text \<open>
  A floating-point number is a real number, one of the two infinities, or NaN. Arithmetic
  on real values is exact (no rounding, no overflow); the infinities and NaN follow IEEE
  754: NaN goes through every operation, \<open>inf - inf\<close>, \<open>0 * inf\<close> and \<open>inf / inf\<close> are NaN,
  \<open>x / 0\<close> is an infinity of the sign of \<open>x\<close> (zero has no sign here) and \<open>0 / 0\<close> is NaN, and
  every comparison with NaN is false. Times and time steps are Python numbers, and real.
\<close>

datatype fl = Fin real | PInf | NInf | NaN

instantiation fl :: "{zero, one, plus, uminus, minus, times, inverse, abs, ord}"
begin

definition zero_fl :: fl where
  "zero_fl = Fin 0"

definition one_fl :: fl where
  "one_fl = Fin 1"

fun plus_fl :: "fl \<Rightarrow> fl \<Rightarrow> fl" where
  "plus_fl (Fin a) (Fin b) = Fin (a + b)"
| "plus_fl NaN y = NaN"
| "plus_fl x NaN = NaN"
| "plus_fl PInf NInf = NaN"
| "plus_fl NInf PInf = NaN"
| "plus_fl PInf y = PInf"
| "plus_fl x PInf = PInf"
| "plus_fl NInf y = NInf"
| "plus_fl x NInf = NInf"

fun uminus_fl :: "fl \<Rightarrow> fl" where
  "uminus_fl (Fin a) = Fin (- a)"
| "uminus_fl PInf = NInf"
| "uminus_fl NInf = PInf"
| "uminus_fl NaN = NaN"

definition minus_fl :: "fl \<Rightarrow> fl \<Rightarrow> fl" where
  "minus_fl x y = x + (- y)"

fun times_fl :: "fl \<Rightarrow> fl \<Rightarrow> fl" where
  "times_fl (Fin a) (Fin b) = Fin (a * b)"
| "times_fl NaN y = NaN"
| "times_fl x NaN = NaN"
| "times_fl (Fin a) PInf = (if 0 < a then PInf else if a < 0 then NInf else NaN)"
| "times_fl (Fin a) NInf = (if 0 < a then NInf else if a < 0 then PInf else NaN)"
| "times_fl PInf (Fin b) = (if 0 < b then PInf else if b < 0 then NInf else NaN)"
| "times_fl NInf (Fin b) = (if 0 < b then NInf else if b < 0 then PInf else NaN)"
| "times_fl PInf PInf = PInf"
| "times_fl PInf NInf = NInf"
| "times_fl NInf PInf = NInf"
| "times_fl NInf NInf = PInf"

fun inverse_fl :: "fl \<Rightarrow> fl" where
  "inverse_fl (Fin a) = (if a = 0 then PInf else Fin (1 / a))"
| "inverse_fl PInf = Fin 0"
| "inverse_fl NInf = Fin 0"
| "inverse_fl NaN = NaN"

definition divide_fl :: "fl \<Rightarrow> fl \<Rightarrow> fl" where
  "divide_fl x y = x * inverse y"

fun abs_fl :: "fl \<Rightarrow> fl" where
  "abs_fl (Fin a) = Fin \<bar>a\<bar>"
| "abs_fl PInf = PInf"
| "abs_fl NInf = PInf"
| "abs_fl NaN = NaN"

fun less_eq_fl :: "fl \<Rightarrow> fl \<Rightarrow> bool" where
  "less_eq_fl (Fin a) (Fin b) \<longleftrightarrow> a \<le> b"
| "less_eq_fl NaN y \<longleftrightarrow> False"
| "less_eq_fl x NaN \<longleftrightarrow> False"
| "less_eq_fl NInf y \<longleftrightarrow> True"
| "less_eq_fl x PInf \<longleftrightarrow> True"
| "less_eq_fl PInf y \<longleftrightarrow> False"
| "less_eq_fl x NInf \<longleftrightarrow> False"

definition less_fl :: "fl \<Rightarrow> fl \<Rightarrow> bool" where
  "less_fl x y \<longleftrightarrow> x \<le> y \<and> \<not> y \<le> x"

instance ..

end

text \<open>Addition is associative and commutative, with zero neutral, also on the three special values.\<close>

instance fl :: comm_monoid_add
proof
  show "x + y + z = x + (y + z)" for x y z :: fl
    by (cases x; cases y; cases z; simp)
  show "x + y = y + x" for x y :: fl
    by (cases x; cases y; simp)
  show "0 + x = x" for x :: fl
    by (cases x; simp add: zero_fl_def)
qed

instance fl :: numeral ..

type_synonym vec = "fl list"
type_synonym mat = "fl list list"
type_synonym 'a result = "error + 'a"
type_synonym 'a comp = "(error + 'a) option"

text \<open>A value that is either a Python number or an array; only \<open>D\<close> of \<open>get_ABCD\<close> needs it.\<close>

datatype ndarray = Scalar real | Arr1 vec | Arr2 mat

definition bindE :: "'a result \<Rightarrow> ('a \<Rightarrow> 'b result) \<Rightarrow> 'b result" where
  "bindE m k = (case m of Inl e \<Rightarrow> Inl e | Inr v \<Rightarrow> k v)"

definition bindC :: "'a comp \<Rightarrow> ('a \<Rightarrow> 'b comp) \<Rightarrow> 'b comp" where
  "bindC m k = (case m of None \<Rightarrow> None | Some (Inl e) \<Rightarrow> Some (Inl e) | Some (Inr v) \<Rightarrow> k v)"

fun sequenceE :: "'a result list \<Rightarrow> 'a list result" where
  "sequenceE [] = Inr []"
| "sequenceE (m # ms) = bindE m (\<lambda>v. bindE (sequenceE ms) (\<lambda>vs. Inr (v # vs)))"

text \<open>\<^verbatim>\<open>jnp.zeros((r, c))\<close>\<close>

definition zeros :: "nat \<Rightarrow> nat \<Rightarrow> mat" where
  "zeros r c = replicate r (replicate c 0)"

text \<open>
  \<^verbatim>\<open>M.at[i, j].set(v)\<close>: a new array with one entry replaced. JAX drops an update whose
  index is out of range, which is what \<open>list_update\<close> does.
\<close>

definition at_set :: "mat \<Rightarrow> nat \<Rightarrow> nat \<Rightarrow> fl \<Rightarrow> mat" where
  "at_set M i j v = M[i := (M ! i)[j := v]]"

text \<open>
  NumPy broadcasting of a binary operation: two axes are compatible when their lengths
  agree or one of them is 1, and the axis of length 1 is repeated. \<open>bc1\<close> is the rule for
  shapes \<open>(n,)\<close> and \<open>(m,)\<close>, \<open>bc2\<close> for shapes \<open>(r, c)\<close> and \<open>(r', c')\<close>; an operand of
  shape \<open>(n,)\<close> enters \<open>bc2\<close> as the one-row array \<open>[v]\<close>.
\<close>

definition bc1 :: "(fl \<Rightarrow> fl \<Rightarrow> fl) \<Rightarrow> vec \<Rightarrow> vec \<Rightarrow> vec result" where
  "bc1 f a b =
     (if length a = length b then Inr (map2 f a b)
      else if length a = 1 then Inr (map (f (hd a)) b)
      else if length b = 1 then Inr (map (\<lambda>v. f v (hd b)) a)
      else Inl ShapeError)"

definition bc2 :: "(fl \<Rightarrow> fl \<Rightarrow> fl) \<Rightarrow> mat \<Rightarrow> mat \<Rightarrow> mat result" where
  "bc2 f a b =
     (if length a = length b then sequenceE (map2 (bc1 f) a b)
      else if length a = 1 then sequenceE (map (bc1 f (hd a)) b)
      else if length b = 1 then sequenceE (map (\<lambda>r. bc1 f r (hd b)) a)
      else Inl ShapeError)"

text \<open>\<^verbatim>\<open>jax.nn.relu\<close> on a scalar and on an array, and \<^verbatim>\<open>jnp.sum\<close> of an array.\<close>

definition relu :: "fl \<Rightarrow> fl" where
  "relu v = max v 0"

definition relu2 :: "mat \<Rightarrow> mat" where
  "relu2 M = map (map relu) M"

definition sum2 :: "mat \<Rightarrow> fl" where
  "sum2 M = sum_list (map sum_list M)"

text \<open>
  \<^verbatim>\<open>jnp.matmul(A, x.reshape(-1, 1))\<close>, the column read back as a list: every row of \<open>A\<close>
  must be as long as \<open>x\<close>.
\<close>

definition matvec :: "mat \<Rightarrow> vec \<Rightarrow> vec result" where
  "matvec A v =
     (if list_all (\<lambda>r. length r = length v) A
      then Inr (map (\<lambda>r. sum_list (map2 (*) r v)) A)
      else Inl ShapeError)"

text \<open>
  \<^verbatim>\<open>d[i, :]\<close> on a JAX array with a Python integer \<open>i \<ge> 0\<close>: a read past the last row is
  clamped to the last row; an axis of length 0 raises.
\<close>

definition jnp_row :: "mat \<Rightarrow> nat \<Rightarrow> vec result" where
  "jnp_row d i = (if d = [] then Inl IndexError else Inr (d ! min i (length d - 1)))"

text \<open>\<^verbatim>\<open>v[i]\<close> on a one-dimensional JAX array, \<open>i \<ge> 0\<close>: clamped in the same way.\<close>

definition jnp_at :: "vec \<Rightarrow> nat \<Rightarrow> fl result" where
  "jnp_at v i = (if v = [] then Inl IndexError else Inr (v ! min i (length v - 1)))"

text \<open>
  \<^verbatim>\<open>v[h_ph]\<close> on a one-dimensional JAX array, where \<^verbatim>\<open>h_ph\<close> is the NumPy array made from a
  Python list of integers: a negative index counts from the end, and the index is then
  clamped into range. From the empty list \<^verbatim>\<open>np.array\<close> makes an array of floats, which is
  refused as an index.
\<close>

definition jnp_take :: "vec \<Rightarrow> int list \<Rightarrow> vec result" where
  "jnp_take v hs =
     (if hs = [] then Inl TypeError
      else if v = [] then Inl IndexError
      else Inr (map (\<lambda>h. let n = int (length v); j = (if h < 0 then h + n else h)
                         in v ! nat (min (max j 0) (n - 1))) hs))"

text \<open>
  \<^verbatim>\<open>jnp.concatenate([a, b], axis=0)\<close> on a first array that has a row, as \<^verbatim>\<open>forward\<close> calls
  it: the rows of both must have one length. \<open>concat0_from\<close> is
  \<^verbatim>\<open>jnp.concatenate((a[n:], b), axis=0)\<close>: the slice \<^verbatim>\<open>a[n:]\<close> keeps the column count of \<open>a\<close>,
  also when no row of \<open>a\<close> is left in it, so the rows of \<open>a\<close> and \<open>b\<close> must have one length.
\<close>

definition concat0 :: "mat \<Rightarrow> mat \<Rightarrow> mat result" where
  "concat0 a b =
     (if list_all (\<lambda>r. list_all (\<lambda>r'. length r = length r') b) a then Inr (a @ b)
      else Inl ShapeError)"

definition concat0_from :: "nat \<Rightarrow> mat \<Rightarrow> mat \<Rightarrow> mat result" where
  "concat0_from n a b =
     (if list_all (\<lambda>r. list_all (\<lambda>r'. length r = length r') b) a then Inr (drop n a @ b)
      else Inl ShapeError)"

text \<open>\<^verbatim>\<open>xs[:, 0]\<close>: the first column; an array without columns raises.\<close>

definition col0 :: "mat \<Rightarrow> vec result" where
  "col0 M = (if list_ex (\<lambda>r. r = []) M then Inl IndexError else Inr (map hd M))"

text \<open>\<^verbatim>\<open>v.reshape(-1, 1)\<close> of a one-dimensional array.\<close>

definition column :: "vec \<Rightarrow> mat" where
  "column v = map (\<lambda>e. [e]) v"

text \<open>Python's \<^verbatim>\<open>int(r)\<close> on a float: truncation towards zero.\<close>

definition py_int :: "real \<Rightarrow> int" where
  "py_int r = (if 0 \<le> r then \<lfloor>r\<rfloor> else \<lceil>r\<rceil>)"

section \<open>The zone model\<close>

text \<open>
  \<^verbatim>\<open>get_ABCD\<close> (the parameter \<^verbatim>\<open>Re\<close> is written \<open>Re'\<close>, \<open>Re\<close> being the real part of
  a complex number here). Python reads \<^verbatim>\<open>-1/Cai*(...)\<close> as \<open>((-1)/Cai)*(...)\<close>.
\<close>

definition get_ABCD ::
  "fl \<Rightarrow> fl \<Rightarrow> fl \<Rightarrow> fl \<Rightarrow> fl \<Rightarrow> fl \<Rightarrow> fl \<Rightarrow> mat \<times> mat \<times> mat \<times> ndarray" where
  "get_ABCD Cai Cwe Cwi Re' Ri Rw Rg =
     (let A = zeros 3 3;
          B = zeros 3 5;
          C = zeros 1 3;
          A = at_set A 0 0 ((- 1) / Cai * (1 / Rg + 1 / Ri));
          A = at_set A 0 2 (1 / (Cai * Ri));
          A = at_set A 1 1 ((- 1) / Cwe * (1 / Re' + 1 / Rw));
          A = at_set A 1 2 (1 / (Cwe * Rw));
          A = at_set A 2 0 (1 / (Cwi * Ri));
          A = at_set A 2 1 (1 / (Cwi * Rw));
          A = at_set A 2 2 ((- 1) / Cwi * (1 / Rw + 1 / Ri));
          B = at_set B 0 0 (1 / (Cai * Rg));
          B = at_set B 0 1 (1 / Cai);
          B = at_set B 0 2 (1 / Cai);
          B = at_set B 1 0 (1 / (Cwe * Re'));
          B = at_set B 1 3 (1 / Cwe);
          B = at_set B 2 4 (1 / Cwi);
          C = at_set C 0 0 1;
          D = Scalar 0
      in (A, B, C, D))"

text \<open>
  The matrices of \<^verbatim>\<open>RCModel\<close> in \<^verbatim>\<open>state_space.py\<close>: \<^verbatim>\<open>fxx.setup\<close>, \<^verbatim>\<open>fxu.setup\<close>,
  \<^verbatim>\<open>fyx.setup\<close> and \<^verbatim>\<open>fyu.setup\<close>.
\<close>

definition RCModel_fxx :: "fl \<Rightarrow> fl \<Rightarrow> fl \<Rightarrow> fl \<Rightarrow> fl \<Rightarrow> fl \<Rightarrow> fl \<Rightarrow> mat" where
  "RCModel_fxx Cai Cwe Cwi Re' Ri Rw Rg =
     (let A = zeros 3 3;
          A = at_set A 0 0 ((- 1) / Cai * (1 / Rg + 1 / Ri));
          A = at_set A 0 2 (1 / (Cai * Ri));
          A = at_set A 1 1 ((- 1) / Cwe * (1 / Re' + 1 / Rw));
          A = at_set A 1 2 (1 / (Cwe * Rw));
          A = at_set A 2 0 (1 / (Cwi * Ri));
          A = at_set A 2 1 (1 / (Cwi * Rw));
          A = at_set A 2 2 ((- 1) / Cwi * (1 / Rw + 1 / Ri))
      in A)"

definition RCModel_fxu :: "fl \<Rightarrow> fl \<Rightarrow> fl \<Rightarrow> fl \<Rightarrow> fl \<Rightarrow> mat" where
  "RCModel_fxu Cai Cwe Cwi Re' Rg =
     (let B = zeros 3 5;
          B = at_set B 0 0 (1 / (Cai * Rg));
          B = at_set B 0 1 (1 / Cai);
          B = at_set B 0 2 (1 / Cai);
          B = at_set B 1 0 (1 / (Cwe * Re'));
          B = at_set B 1 3 (1 / Cwe);
          B = at_set B 2 4 (1 / Cwi)
      in B)"

definition RCModel_fyx :: mat where
  "RCModel_fyx = (let C = zeros 1 3; C = at_set C 0 0 1 in C)"

definition RCModel_fyu :: ndarray where
  "RCModel_fyu = Arr2 (zeros 1 5)"

text \<open>
  \<^verbatim>\<open>zone_state_space\<close>: \<open>dx = A x + B d\<close>, columns added under broadcasting and read
  back as a list; \<^verbatim>\<open>f\<close> is its wrapper with the argument tuple unpacked.
\<close>

type_synonym ode_args = "mat \<times> mat \<times> vec"
type_synonym ode_func = "real \<Rightarrow> vec \<Rightarrow> ode_args \<Rightarrow> vec result"

definition zone_state_space :: "real \<Rightarrow> vec \<Rightarrow> mat \<Rightarrow> mat \<Rightarrow> vec \<Rightarrow> vec result" where
  "zone_state_space t x A B d =
     bindE (matvec A x) (\<lambda>Ax. bindE (matvec B d) (\<lambda>Bd. bc1 (+) Ax Bd))"

definition f :: ode_func where
  "f t x args = (case args of (A, B, d) \<Rightarrow> zone_state_space t x A B d)"

section \<open>The integrator and the horizon simulation\<close>

text \<open>
  A solver of the diffrax library, as far as \<^verbatim>\<open>forward\<close> uses it: \<^verbatim>\<open>init\<close> gives the
  solver's state, \<^verbatim>\<open>step\<close> the next value and the next solver state. \<open>Euler\<close> is the
  explicit Euler method, \<open>y1 = y0 + f(t0, y0, args) * (t1 - t0)\<close>, which keeps no state.
\<close>

record 's solver =
  solver_init :: "ode_func \<Rightarrow> real \<Rightarrow> real \<Rightarrow> vec \<Rightarrow> ode_args \<Rightarrow> 's result"
  solver_step :: "ode_func \<Rightarrow> real \<Rightarrow> real \<Rightarrow> vec \<Rightarrow> ode_args \<Rightarrow> 's \<Rightarrow> (vec \<times> 's) result"

definition Euler :: "unit solver" where
  "Euler =
     \<lparr>solver_init = (\<lambda>func t0 t1 y0 args. Inr ()),
      solver_step = (\<lambda>func t0 t1 y0 args st.
        bindE (func t0 y0 args) (\<lambda>vf.
        bindE (bc1 (+) y0 (map (\<lambda>v. v * Fin (t1 - t0)) vf)) (\<lambda>y1. Inr (y1, ()))))\<rparr>"

text \<open>The local variables of \<^verbatim>\<open>forward\<close> that its loop reads and writes.\<close>

record 's fwd_state =
  fw_tprev :: real
  fw_tnext :: real
  fw_x :: vec
  fw_args :: ode_args
  fw_state :: 's
  fw_i :: nat
  fw_t_all :: "real list"
  fw_x_all :: mat

text \<open>One pass through the body of the \<^verbatim>\<open>while\<close> loop of \<^verbatim>\<open>forward\<close>.\<close>

definition forward_body ::
  "ode_func \<Rightarrow> 's solver \<Rightarrow> mat \<Rightarrow> mat \<Rightarrow> mat \<Rightarrow> real \<Rightarrow> real \<Rightarrow> 's fwd_state \<Rightarrow> 's fwd_state result" where
  "forward_body func solver A B d te dt s =
     bindE (solver_step solver func (fw_tprev s) (fw_tnext s) (fw_x s) (fw_args s) (fw_state s))
       (\<lambda>(x', state').
     let tprev' = fw_tnext s;
         tnext' = min (tprev' + dt) te;
         i' = fw_i s + 1
     in bindE (jnp_row d i') (\<lambda>dnext.
        bindE (concat0 (fw_x_all s) [x']) (\<lambda>x_all'.
        Inr \<lparr>fw_tprev = tprev', fw_tnext = tnext', fw_x = x', fw_args = (A, B, dnext),
             fw_state = state', fw_i = i', fw_t_all = fw_t_all s @ [tnext'],
             fw_x_all = x_all'\<rparr>)))"

text \<open>
  The loop \<^verbatim>\<open>while tprev < te\<close>. With \<open>dt \<le> 0\<close> the time never reaches \<open>te\<close> and the
  loop does not end: the result is then \<open>None\<close>.
\<close>

partial_function (option) forward_loop ::
  "ode_func \<Rightarrow> 's solver \<Rightarrow> mat \<Rightarrow> mat \<Rightarrow> mat \<Rightarrow> real \<Rightarrow> real \<Rightarrow> 's fwd_state \<Rightarrow> 's fwd_state comp" where
  "forward_loop func solver A B d te dt s =
     (if fw_tprev s < te
      then (case forward_body func solver A B d te dt s of
              Inl e \<Rightarrow> Some (Inl e)
            | Inr s' \<Rightarrow> forward_loop func solver A B d te dt s')
      else Some (Inr s))"

declare forward_loop.simps [code]

text \<open>
  \<^verbatim>\<open>forward\<close> up to the end of its loop, with all local variables, and \<^verbatim>\<open>forward\<close>
  itself, which returns \<open>(t_all, x_all)\<close>.
\<close>

definition forward_run ::
  "ode_func \<Rightarrow> real \<Rightarrow> real \<Rightarrow> real \<Rightarrow> vec \<Rightarrow> 's solver \<Rightarrow> mat \<times> mat \<times> mat \<Rightarrow> 's fwd_state comp" where
  "forward_run func ts te dt x0 solver args =
     (case args of (A, B, d) \<Rightarrow>
        (case jnp_row d 0 of
           Inl e \<Rightarrow> Some (Inl e)
         | Inr dprev \<Rightarrow>
             (case solver_init solver func ts (ts + dt) x0 (A, B, dprev) of
                Inl e \<Rightarrow> Some (Inl e)
              | Inr state \<Rightarrow>
                  forward_loop func solver A B d te dt
                    \<lparr>fw_tprev = ts, fw_tnext = ts + dt, fw_x = x0, fw_args = (A, B, dprev),
                     fw_state = state, fw_i = 0, fw_t_all = [ts], fw_x_all = [x0]\<rparr>)))"

definition forward ::
  "ode_func \<Rightarrow> real \<Rightarrow> real \<Rightarrow> real \<Rightarrow> vec \<Rightarrow> 's solver \<Rightarrow> mat \<times> mat \<times> mat \<Rightarrow> (real list \<times> mat) comp" where
  "forward func ts te dt x0 solver args =
     bindC (forward_run func ts te dt x0 solver args) (\<lambda>s. Some (Inr (fw_t_all s, fw_x_all s)))"

section \<open>The controller\<close>

text \<open>
  The fields of an \<^verbatim>\<open>MPC\<close> object. \<^verbatim>\<open>self.time\<close> and \<^verbatim>\<open>self.state\<close> do not exist
  until \<^verbatim>\<open>set_time\<close> and \<^verbatim>\<open>set_state\<close> have run: reading them before raises
  \<^verbatim>\<open>AttributeError\<close>. \<^verbatim>\<open>predictor['zone_model']\<close> is the tuple of the seven parameters.
\<close>

record MPC =
  mpc_PH :: nat
  mpc_CH :: nat
  mpc_dt :: real
  mpc_NU :: nat
  mpc_predictor :: "fl \<times> fl \<times> fl \<times> fl \<times> fl \<times> fl \<times> fl"
  mpc_occ_start :: nat
  mpc_occ_end :: nat
  mpc_u_lb :: mat
  mpc_u_ub :: mat
  mpc_ode_solver :: "unit solver"
  mpc_T_ub :: vec
  mpc_T_lb :: vec
  mpc_price :: vec
  mpc_u_start :: mat
  mpc_time :: "real option"
  mpc_state :: "vec option"

text \<open>\<^verbatim>\<open>jnp.ones([r, c])\<close>, \<^verbatim>\<open>jnp.repeat(M, n)\<close> (flattened), \<^verbatim>\<open>v[a:b] = c\<close>.\<close>

definition ones :: "nat \<Rightarrow> nat \<Rightarrow> mat" where
  "ones r c = replicate r (replicate c 1)"

definition jnp_repeat :: "mat \<Rightarrow> nat \<Rightarrow> vec" where
  "jnp_repeat M n = concat (map (replicate n) (concat M))"

definition slice_set :: "vec \<Rightarrow> nat \<Rightarrow> nat \<Rightarrow> fl \<Rightarrow> vec" where
  "slice_set v a b c = map (\<lambda>k. if a \<le> k \<and> k < b then c else v ! k) [0..<length v]"

text \<open>\<^verbatim>\<open>MPC.__init__\<close> (the \<^verbatim>\<open>print\<close> is left out).\<close>

definition MPC_init ::
  "nat \<Rightarrow> nat \<Rightarrow> real \<Rightarrow> fl \<times> fl \<times> fl \<times> fl \<times> fl \<times> fl \<times> fl \<Rightarrow> vec \<Rightarrow> MPC" where
  "MPC_init PH CH dt predictor price =
     (let NU = 1;
          occ_start = 8;
          occ_end = 18;
          u_lb = map (map (\<lambda>v. (- 10) * v)) (ones 1 NU);
          u_ub = map (map (\<lambda>v. 0 * v)) (ones 1 NU);
          T_ub = slice_set (replicate 24 30) occ_start occ_end 26;
          T_lb = slice_set (replicate 24 12) occ_start occ_end 22;
          u_start = column (jnp_repeat u_ub PH)
      in \<lparr>mpc_PH = PH, mpc_CH = CH, mpc_dt = dt, mpc_NU = NU, mpc_predictor = predictor,
           mpc_occ_start = occ_start, mpc_occ_end = occ_end, mpc_u_lb = u_lb, mpc_u_ub = u_ub,
           mpc_ode_solver = Euler, mpc_T_ub = T_ub, mpc_T_lb = T_lb, mpc_price = price,
           mpc_u_start = u_start, mpc_time = None, mpc_state = None\<rparr>)"

definition set_time :: "MPC \<Rightarrow> real \<Rightarrow> MPC" where
  "set_time self time = self\<lparr>mpc_time := Some time\<rparr>"

definition set_state :: "MPC \<Rightarrow> vec \<Rightarrow> MPC" where
  "set_state self state = self\<lparr>mpc_state := Some state\<rparr>"

definition set_u_start_from_last_step :: "MPC \<Rightarrow> mat \<Rightarrow> MPC result" where
  "set_u_start_from_last_step self u_prev =
     bindE (concat0_from (mpc_NU self) u_prev (mpc_u_ub self))
       (\<lambda>u. Inr (self\<lparr>mpc_u_start := u\<rparr>))"

section \<open>The cost\<close>

text \<open>
  The three cost methods as functions of the controller object and of their arguments:
  what a call returns. What a call does to the object is followed further down, in the
  section on the calls.
\<close>

text \<open>\<^verbatim>\<open>MPC.get_u_violations\<close>; its local \<^verbatim>\<open>u_ub_ph\<close> is never read.\<close>

definition get_u_violations :: "MPC \<Rightarrow> mat \<Rightarrow> fl result" where
  "get_u_violations self u =
     bindE (bc2 (-) u (mpc_u_ub self)) (\<lambda>over.
     bindE (bc2 (-) (mpc_u_lb self) u) (\<lambda>under.
     bindE (bc2 (+) (relu2 over) (relu2 under)) (\<lambda>vio. Inr (sum2 vio))))"

text \<open>
  The last lines of \<^verbatim>\<open>MPC.get_T_violations\<close>, from \<^verbatim>\<open>Tz_ph = xs[:,0]\<close> on: \<open>Tz_ph\<close> has
  shape \<open>(n,)\<close>, and the two differences are formed under broadcasting with the bound
  arrays as they were passed in.
\<close>

definition T_violations :: "mat \<Rightarrow> mat \<Rightarrow> mat \<Rightarrow> fl result" where
  "T_violations xs T_ub_ph T_lb_ph =
     bindE (col0 xs) (\<lambda>Tz_ph.
     bindE (bc2 (-) [Tz_ph] T_ub_ph) (\<lambda>over.
     let T_vio_ub_ph = relu2 over in
     bindE (bc2 (-) T_lb_ph [Tz_ph]) (\<lambda>under.
     let T_vio_lb_ph = relu2 under;
         T_vios = sum2 T_vio_ub_ph + sum2 T_vio_lb_ph
     in Inr T_vios)))"

definition get_T_violations ::
  "MPC \<Rightarrow> vec \<Rightarrow> real \<Rightarrow> real \<Rightarrow> real \<Rightarrow> mat \<Rightarrow> mat \<Rightarrow> mat \<Rightarrow> fl comp" where
  "get_T_violations self state ts te dt disturbance T_ub_ph T_lb_ph =
     (case mpc_time self of
        None \<Rightarrow> Some (Inl AttributeError)
      | Some time \<Rightarrow>
          (case mpc_predictor self of (Cai, Cwe, Cwi, Re', Ri, Rw, Rg) \<Rightarrow>
          (case get_ABCD Cai Cwe Cwi Re' Ri Rw Rg of (A, B, C, D) \<Rightarrow>
             bindC (forward f ts te dt state (mpc_ode_solver self) (A, B, disturbance))
               (\<lambda>(ts', xs). Some (T_violations xs T_ub_ph T_lb_ph)))))"

text \<open>
  \<^verbatim>\<open>jnp.concatenate((a, b, c), axis=1)\<close>: the three arrays must have as many rows.
\<close>

definition concat1 :: "mat \<Rightarrow> mat \<Rightarrow> mat \<Rightarrow> mat result" where
  "concat1 a b c =
     (if length a = length b \<and> length b = length c
      then Inr (map (\<lambda>(ra, rb, rc). ra @ rb @ rc) (zip a (zip b c)))
      else Inl ShapeError)"

text \<open>
  The last two lines of \<^verbatim>\<open>MPC.loss_mpc\<close>: \<open>T_vios\<close> and \<open>u_vios\<close> are scalars, added
  under broadcasting to the array \<open>price * |u| * dt / 3600\<close> before the sum is taken.
\<close>

definition objective :: "MPC \<Rightarrow> mat \<Rightarrow> mat \<Rightarrow> fl \<Rightarrow> fl \<Rightarrow> fl result" where
  "objective self price u T_vios u_vios =
     bindE (bc2 (*) price (map (map abs) u)) (\<lambda>pu.
     let obj = map (map (\<lambda>v. v * Fin (mpc_dt self) / 3600 + T_vios + u_vios)) pu
     in Inr (sum2 obj))"

definition loss_mpc ::
  "MPC \<Rightarrow> mat \<Rightarrow> vec \<Rightarrow> real \<Rightarrow> real \<Rightarrow> real \<Rightarrow> mat \<Rightarrow> mat \<Rightarrow> mat \<Rightarrow> mat \<Rightarrow> fl comp" where
  "loss_mpc self u state ts te dt disturbance T_ub T_lb price =
     bindC (Some (concat1 (map (take 2) disturbance) u (map (drop 3) disturbance))) (\<lambda>d.
     bindC (get_T_violations self state ts te dt d T_ub T_lb) (\<lambda>T_vios.
     bindC (Some (get_u_violations self u)) (\<lambda>u_vios.
     Some (objective self price u T_vios u_vios))))"

section \<open>One control step\<close>

text \<open>
  The two libraries the optimisation calls are parameters of the model:
  \<^verbatim>\<open>jax.value_and_grad\<close> evaluates the function and hands back a gradient, here the
  gradient oracle \<open>grad\<close>; \<^verbatim>\<open>optax.adamw\<close> makes, from a learning rate, a pair of pure
  functions \<^verbatim>\<open>init\<close> and \<^verbatim>\<open>update\<close> over an optimizer state of its own.
  \<^verbatim>\<open>optax.apply_updates\<close> adds the updates to the parameters. The parameter dictionary
  \<^verbatim>\<open>{'u': u}\<close> is its one entry \<open>u\<close>.
\<close>

type_synonym autodiff = "(mat \<Rightarrow> fl comp) \<Rightarrow> mat \<Rightarrow> mat"

record 'os optimizer =
  opt_init :: "mat \<Rightarrow> 'os"
  opt_update :: "mat \<Rightarrow> 'os \<Rightarrow> mat \<Rightarrow> mat \<times> 'os"

definition value_and_grad :: "autodiff \<Rightarrow> (mat \<Rightarrow> fl comp) \<Rightarrow> mat \<Rightarrow> (fl \<times> mat) comp" where
  "value_and_grad grad L p = bindC (L p) (\<lambda>v. Some (Inr (v, grad L p)))"

definition apply_updates :: "mat \<Rightarrow> mat \<Rightarrow> mat result" where
  "apply_updates p u = bc2 (+) p u"

definition tolerance :: fl where
  "tolerance = 1 / 1000000"

definition n_epochs :: nat where
  "n_epochs = 1000"

definition BIG_NUMBER :: fl where
  "BIG_NUMBER = 1000000"

text \<open>
  \<^verbatim>\<open>h = int((t % 86400) / 3600)\<close> with \<^verbatim>\<open>t = int(ts + ph*self.dt)\<close>: the hour of the day
  of horizon step \<open>ph\<close>.
\<close>

definition hour_index :: "real \<Rightarrow> real \<Rightarrow> nat \<Rightarrow> int" where
  "hour_index ts dt ph =
     (let t = py_int (ts + real ph * dt);
          h = py_int (real_of_int (t mod 86400) / 3600)
      in h)"

text \<open>
  The local variables of the optimisation loop of \<^verbatim>\<open>MPC.step\<close>. \<^verbatim>\<open>u_ph\<close> is bound by
  the first pass through the body and not before.
\<close>

record 'os loop_state =
  ls_epoch :: nat
  ls_loss :: fl
  ls_params :: mat
  ls_opt_state :: 'os
  ls_u_ph :: "mat option"

text \<open>One pass through the body of the loop (the \<^verbatim>\<open>print\<close> is left out).\<close>

definition step_body ::
  "autodiff \<Rightarrow> 'os optimizer \<Rightarrow> (mat \<Rightarrow> fl comp) \<Rightarrow> 'os loop_state \<Rightarrow> 'os loop_state comp" where
  "step_body grad optimizer L s =
     (let u_ph = ls_params s in
      bindC (value_and_grad grad L (ls_params s)) (\<lambda>(loss, grads).
      (case opt_update optimizer grads (ls_opt_state s) (ls_params s) of (updates, opt_state) \<Rightarrow>
      bindC (Some (apply_updates (ls_params s) updates)) (\<lambda>params.
      Some (Inr \<lparr>ls_epoch = ls_epoch s + 1, ls_loss = loss, ls_params = params,
                 ls_opt_state = opt_state, ls_u_ph = Some u_ph\<rparr>)))))"

text \<open>The loop \<^verbatim>\<open>while epoch < n_epochs and loss > tolerance\<close>.\<close>

function step_loop ::
  "autodiff \<Rightarrow> 'os optimizer \<Rightarrow> (mat \<Rightarrow> fl comp) \<Rightarrow> 'os loop_state \<Rightarrow> 'os loop_state comp" where
  "step_loop grad optimizer L s =
     (if ls_epoch s < n_epochs \<and> ls_loss s > tolerance
      then (case step_body grad optimizer L s of
              None \<Rightarrow> None
            | Some (Inl e) \<Rightarrow> Some (Inl e)
            | Some (Inr s') \<Rightarrow> step_loop grad optimizer L s')
      else Some (Inr s))"
  by pat_completeness auto
termination
  by (relation "measure (\<lambda>(grad, optimizer, L, s). n_epochs - ls_epoch s)")
     (auto simp: step_body_def value_and_grad_def bindC_def Let_def
           split: option.splits sum.splits prod.splits)

text \<open>
  The lines of \<^verbatim>\<open>MPC.step\<close> up to the end of its loop, with the loop's variables, on a
  controller object that stays as it is: the three definitions above give the loop as a
  function of its own variables. The calls below follow the controller object as well.
\<close>

definition step_run ::
  "autodiff \<Rightarrow> (fl \<Rightarrow> 'os optimizer) \<Rightarrow> MPC \<Rightarrow> mat \<Rightarrow> 'os loop_state comp" where
  "step_run grad adamw self disturbance =
     (case mpc_time self of
        None \<Rightarrow> Some (Inl AttributeError)
      | Some ts \<Rightarrow>
          (let te = ts + real (mpc_PH self) * mpc_dt self in
           (case mpc_state self of
              None \<Rightarrow> Some (Inl AttributeError)
            | Some state \<Rightarrow>
                (let h_ph = map (hour_index ts (mpc_dt self)) [0..<mpc_PH self] in
                 bindC (Some (jnp_take (mpc_price self) h_ph)) (\<lambda>price_h.
                 bindC (Some (jnp_take (mpc_T_ub self) h_ph)) (\<lambda>T_ub_h.
                 bindC (Some (jnp_take (mpc_T_lb self) h_ph)) (\<lambda>T_lb_h.
                 let price_ph = column price_h;
                     T_ub_ph = column T_ub_h;
                     T_lb_ph = column T_lb_h;
                     lr = 1 / 100;
                     optimizer = adamw lr;
                     u0 = mpc_u_start self;
                     params = u0;
                     opt_state = opt_init optimizer params;
                     L = (\<lambda>u. loss_mpc self u state ts te (mpc_dt self) disturbance
                                  T_ub_ph T_lb_ph price_ph)
                 in step_loop grad optimizer L
                      \<lparr>ls_epoch = 0, ls_loss = BIG_NUMBER, ls_params = params,
                       ls_opt_state = opt_state, ls_u_ph = None\<rparr>)))))))"

section \<open>The calls on the controller object\<close>

text \<open>
  A method call with its effect on the controller object: a function from the object
  before the call to what the call returns and the object after it. \<open>reads\<close> is a statement
  or an expression that reads attributes of \<^verbatim>\<open>self\<close> and assigns none, \<open>bindM\<close> runs a call
  and then the next on the object that the first has left. Arrays of JAX cannot be changed
  in place; the functions \<^verbatim>\<open>forward\<close> and \<^verbatim>\<open>get_ABCD\<close> are handed arrays and not the object,
  and \<^verbatim>\<open>jax.value_and_grad\<close> does nothing to the object but call the method on it.
\<close>

type_synonym 'a meth = "MPC \<Rightarrow> 'a comp \<times> MPC"

definition reads :: "(MPC \<Rightarrow> 'a comp) \<Rightarrow> 'a meth" where
  "reads g self = (g self, self)"

definition bindM :: "'a meth \<Rightarrow> ('a \<Rightarrow> 'b meth) \<Rightarrow> 'b meth" where
  "bindM m k self =
     (case m self of
        (None, self') \<Rightarrow> (None, self')
      | (Some (Inl e), self') \<Rightarrow> (Some (Inl e), self')
      | (Some (Inr v), self') \<Rightarrow> k v self')"

text \<open>\<^verbatim>\<open>MPC.get_u_violations\<close>, \<^verbatim>\<open>MPC.get_T_violations\<close> and \<^verbatim>\<open>MPC.loss_mpc\<close>, line by line.\<close>

definition get_u_violations_call :: "mat \<Rightarrow> fl meth" where
  "get_u_violations_call u =
     bindM (reads (\<lambda>self. Some (Inr (jnp_repeat (mpc_u_ub self) (mpc_PH self))))) (\<lambda>u_ub_ph.
     reads (\<lambda>self.
       Some (bindE (bc2 (-) u (mpc_u_ub self)) (\<lambda>over.
             bindE (bc2 (-) (mpc_u_lb self) u) (\<lambda>under.
             bindE (bc2 (+) (relu2 over) (relu2 under)) (\<lambda>vio. Inr (sum2 vio)))))))"

definition get_T_violations_call ::
  "vec \<Rightarrow> real \<Rightarrow> real \<Rightarrow> real \<Rightarrow> mat \<Rightarrow> mat \<Rightarrow> mat \<Rightarrow> fl meth" where
  "get_T_violations_call state ts te dt disturbance T_ub_ph T_lb_ph =
     bindM (reads (\<lambda>self. case mpc_time self of None \<Rightarrow> Some (Inl AttributeError)
                             | Some time \<Rightarrow> Some (Inr time))) (\<lambda>time.
     bindM (reads (\<lambda>self. Some (Inr (mpc_predictor self)))) (\<lambda>(Cai, Cwe, Cwi, Re', Ri, Rw, Rg).
     (case get_ABCD Cai Cwe Cwi Re' Ri Rw Rg of (A, B, C, D) \<Rightarrow>
     bindM (reads (\<lambda>self. forward f ts te dt state (mpc_ode_solver self) (A, B, disturbance)))
       (\<lambda>(ts', xs).
     reads (\<lambda>self. Some (T_violations xs T_ub_ph T_lb_ph))))))"

definition loss_mpc_call ::
  "mat \<Rightarrow> vec \<Rightarrow> real \<Rightarrow> real \<Rightarrow> real \<Rightarrow> mat \<Rightarrow> mat \<Rightarrow> mat \<Rightarrow> mat \<Rightarrow> fl meth" where
  "loss_mpc_call u state ts te dt disturbance T_ub T_lb price =
     bindM (reads (\<lambda>self.
       Some (concat1 (map (take 2) disturbance) u (map (drop 3) disturbance)))) (\<lambda>d.
     bindM (get_T_violations_call state ts te dt d T_ub T_lb) (\<lambda>T_vios.
     bindM (get_u_violations_call u) (\<lambda>u_vios.
     reads (\<lambda>self.
       Some (bindE (bc2 (*) price (map (map abs) u)) (\<lambda>pu.
             let obj = map (map (\<lambda>v. v * Fin (mpc_dt self) / 3600 + T_vios + u_vios)) pu
             in Inr (sum2 obj)))))))"

text \<open>
  \<^verbatim>\<open>jax.value_and_grad(self.loss_mpc)(params, ...)\<close> calls the method once, on the controller
  as it stands; the gradient it hands back is that of the function which the method
  computes on that controller.
\<close>

definition value_and_grad_call :: "autodiff \<Rightarrow> (mat \<Rightarrow> fl meth) \<Rightarrow> mat \<Rightarrow> (fl \<times> mat) meth" where
  "value_and_grad_call grad Lc p self =
     (case Lc p self of (r, self') \<Rightarrow>
        (bindC r (\<lambda>v. Some (Inr (v, grad (\<lambda>q. fst (Lc q self)) p))), self'))"

text \<open>
  The call \<^verbatim>\<open>self.loss_mpc(params, state, ts, te, self.dt, disturbance, T_ub_ph, T_lb_ph,
  price_ph)\<close> that every pass of the loop of \<^verbatim>\<open>MPC.step\<close> makes, the body of the loop, and the
  loop.
\<close>

definition step_loss_call :: "vec \<Rightarrow> real \<Rightarrow> real \<Rightarrow> mat \<Rightarrow> mat \<Rightarrow> mat \<Rightarrow> mat \<Rightarrow> mat \<Rightarrow> fl meth" where
  "step_loss_call state ts te disturbance T_ub_ph T_lb_ph price_ph u =
     bindM (reads (\<lambda>self. Some (Inr (mpc_dt self)))) (\<lambda>dt.
     loss_mpc_call u state ts te dt disturbance T_ub_ph T_lb_ph price_ph)"

definition step_body_call ::
  "autodiff \<Rightarrow> 'os optimizer \<Rightarrow> (mat \<Rightarrow> fl meth) \<Rightarrow> 'os loop_state \<Rightarrow> 'os loop_state meth" where
  "step_body_call grad optimizer Lc s =
     (let u_ph = ls_params s in
      bindM (value_and_grad_call grad Lc (ls_params s)) (\<lambda>(loss, grads).
      (case opt_update optimizer grads (ls_opt_state s) (ls_params s) of (updates, opt_state) \<Rightarrow>
      bindM (reads (\<lambda>self. Some (apply_updates (ls_params s) updates))) (\<lambda>params.
      reads (\<lambda>self.
        Some (Inr \<lparr>ls_epoch = ls_epoch s + 1, ls_loss = loss, ls_params = params,
                   ls_opt_state = opt_state, ls_u_ph = Some u_ph\<rparr>))))))"

function step_loop_call ::
  "autodiff \<Rightarrow> 'os optimizer \<Rightarrow> (mat \<Rightarrow> fl meth) \<Rightarrow> 'os loop_state \<Rightarrow> 'os loop_state meth" where
  "step_loop_call grad optimizer Lc s self =
     (if ls_epoch s < n_epochs \<and> ls_loss s > tolerance
      then (case step_body_call grad optimizer Lc s self of
              (None, self') \<Rightarrow> (None, self')
            | (Some (Inl e), self') \<Rightarrow> (Some (Inl e), self')
            | (Some (Inr s'), self') \<Rightarrow> step_loop_call grad optimizer Lc s' self')
      else (Some (Inr s), self))"
  by pat_completeness auto
termination
  by (relation "measure (\<lambda>(grad, optimizer, Lc, s, self). n_epochs - ls_epoch s)")
     (auto simp: step_body_call_def value_and_grad_call_def bindM_def reads_def bindC_def Let_def
           split: option.splits sum.splits prod.splits)

text \<open>\<^verbatim>\<open>MPC.step\<close>: what the call returns, and the controller object after it.\<close>

definition step ::
  "autodiff \<Rightarrow> (fl \<Rightarrow> 'os optimizer) \<Rightarrow> MPC \<Rightarrow> mat \<Rightarrow> mat comp \<times> MPC" where
  "step grad adamw self disturbance =
     (bindM (reads (\<lambda>self. case mpc_time self of None \<Rightarrow> Some (Inl AttributeError)
                              | Some ts \<Rightarrow> Some (Inr ts))) (\<lambda>ts.
      bindM (reads (\<lambda>self. Some (Inr (ts + real (mpc_PH self) * mpc_dt self)))) (\<lambda>te.
      bindM (reads (\<lambda>self. case mpc_state self of None \<Rightarrow> Some (Inl AttributeError)
                              | Some state \<Rightarrow> Some (Inr state))) (\<lambda>state.
      bindM (reads (\<lambda>self.
        Some (Inr (map (hour_index ts (mpc_dt self)) [0..<mpc_PH self])))) (\<lambda>h_ph.
      bindM (reads (\<lambda>self. Some (jnp_take (mpc_price self) h_ph))) (\<lambda>price_h.
      bindM (reads (\<lambda>self. Some (jnp_take (mpc_T_ub self) h_ph))) (\<lambda>T_ub_h.
      bindM (reads (\<lambda>self. Some (jnp_take (mpc_T_lb self) h_ph))) (\<lambda>T_lb_h.
      let price_ph = column price_h;
          T_ub_ph = column T_ub_h;
          T_lb_ph = column T_lb_h;
          lr = 1 / 100;
          optimizer = adamw lr
      in
      bindM (reads (\<lambda>self. Some (Inr (mpc_u_start self)))) (\<lambda>u0.
      let params = u0;
          opt_state = opt_init optimizer params
      in
      bindM (step_loop_call grad optimizer
               (step_loss_call state ts te disturbance T_ub_ph T_lb_ph price_ph)
               \<lparr>ls_epoch = 0, ls_loss = BIG_NUMBER, ls_params = params,
                ls_opt_state = opt_state, ls_u_ph = None\<rparr>) (\<lambda>s.
      reads (\<lambda>self. case ls_u_ph s of
                       None \<Rightarrow> Some (Inl UnboundLocalError)
                     | Some u_ph \<Rightarrow> Some (Inr u_ph)))))))))))) self"

section \<open>The closed loop\<close>

text \<open>
  One pass through the body of the main loop of the script, from \<^verbatim>\<open>mpc.set_time(t)\<close> to
  \<^verbatim>\<open>state = xs[-1,:]\<close>; the disturbance rows of the horizon, read from a data frame, are
  an argument. It gives the controller, the plant state and the applied control.
\<close>

definition closed_loop_body ::
  "autodiff \<Rightarrow> (fl \<Rightarrow> 'os optimizer) \<Rightarrow> mat \<Rightarrow> mat \<Rightarrow> real \<Rightarrow> MPC \<Rightarrow> vec \<Rightarrow> real \<Rightarrow> mat
     \<Rightarrow> (MPC \<times> vec \<times> fl) comp" where
  "closed_loop_body grad adamw A B dt mpc state t dist_t_ph =
     (let mpc = set_time mpc t;
          mpc = set_state mpc state
      in (case step grad adamw mpc dist_t_ph of (r, mpc) \<Rightarrow>
      bindC r (\<lambda>u_ph.
      bindC (Some (set_u_start_from_last_step mpc u_ph)) (\<lambda>mpc.
      bindC (Some (bindE (jnp_row u_ph 0) (\<lambda>u_ph0. jnp_at u_ph0 0))) (\<lambda>u_ch.
      bindC (Some (jnp_row dist_t_ph 0)) (\<lambda>d0.
      let dist_t = [d0];
          dist_t = at_set dist_t 0 2 u_ch
      in bindC (forward f t (t + dt) dt state Euler (A, B, dist_t)) (\<lambda>(ts, xs).
         Some (Inr (mpc, last xs, u_ch)))))))))"

section \<open>Notions used in the statements\<close>



text \<open>
  The function that \<^verbatim>\<open>MPC.step\<close> minimises: \<^verbatim>\<open>loss_mpc\<close> with the arguments that
  \<^verbatim>\<open>step\<close> passes, as a function of the control sequence alone.
\<close>

definition step_cost :: "MPC \<Rightarrow> mat \<Rightarrow> mat \<Rightarrow> fl comp" where
  "step_cost self disturbance u =
     (case mpc_time self of
        None \<Rightarrow> Some (Inl AttributeError)
      | Some ts \<Rightarrow>
          (case mpc_state self of
             None \<Rightarrow> Some (Inl AttributeError)
           | Some state \<Rightarrow>
               (let h_ph = map (hour_index ts (mpc_dt self)) [0..<mpc_PH self] in
                bindC (Some (jnp_take (mpc_price self) h_ph)) (\<lambda>price_h.
                bindC (Some (jnp_take (mpc_T_ub self) h_ph)) (\<lambda>T_ub_h.
                bindC (Some (jnp_take (mpc_T_lb self) h_ph)) (\<lambda>T_lb_h.
                loss_mpc self u state ts (ts + real (mpc_PH self) * mpc_dt self) (mpc_dt self)
                  disturbance (column T_ub_h) (column T_lb_h) (column price_h)))))))"

text \<open>The variables of the loop of \<^verbatim>\<open>MPC.step\<close> before its first pass.\<close>

definition step_init :: "(fl \<Rightarrow> 'os optimizer) \<Rightarrow> MPC \<Rightarrow> 'os loop_state" where
  "step_init adamw self =
     \<lparr>ls_epoch = 0, ls_loss = BIG_NUMBER, ls_params = mpc_u_start self,
      ls_opt_state = opt_init (adamw (1 / 100)) (mpc_u_start self), ls_u_ph = None\<rparr>"

text \<open>The variables of the loop after \<open>k\<close> passes through its body, the loop test left out.\<close>

fun step_iter ::
  "autodiff \<Rightarrow> 'os optimizer \<Rightarrow> (mat \<Rightarrow> fl comp) \<Rightarrow> nat \<Rightarrow> 'os loop_state \<Rightarrow> 'os loop_state comp" where
  "step_iter grad optimizer L 0 s = Some (Inr s)"
| "step_iter grad optimizer L (Suc k) s =
     bindC (step_body grad optimizer L s) (step_iter grad optimizer L k)"

text \<open>The same passes, with the controller object after them.\<close>

fun step_iter_call ::
  "autodiff \<Rightarrow> 'os optimizer \<Rightarrow> (mat \<Rightarrow> fl meth) \<Rightarrow> nat \<Rightarrow> 'os loop_state \<Rightarrow> 'os loop_state meth" where
  "step_iter_call grad optimizer Lc 0 s = reads (\<lambda>self. Some (Inr s))"
| "step_iter_call grad optimizer Lc (Suc k) s =
     bindM (step_body_call grad optimizer Lc s) (step_iter_call grad optimizer Lc k)"

text \<open>
  The controller has a time and a state, its horizon has a step, and its three schedules
  are not empty: the lines of \<^verbatim>\<open>MPC.step\<close> before the loop then raise nothing.
\<close>

definition step_ready :: "MPC \<Rightarrow> bool" where
  "step_ready self \<longleftrightarrow>
     mpc_time self \<noteq> None \<and> mpc_state self \<noteq> None \<and> 0 < mpc_PH self \<and>
     mpc_price self \<noteq> [] \<and> mpc_T_ub self \<noteq> [] \<and> mpc_T_lb self \<noteq> []"

text \<open>
  The cost as the specification words it, to be compared with \<^verbatim>\<open>loss_mpc\<close>: the sum over
  the horizon steps \<open>t\<close> of \<open>price_t * |u_t| * (dt / 3600)\<close>, of \<open>relu (Tz_t - T_ub_t)\<close>, of
  \<open>relu (T_lb_t - Tz_t)\<close> and of \<open>relu (u_t - u_ub) + relu (u_lb - u_t)\<close>, where \<open>Tz_t\<close> is the
  first component of row \<open>t\<close> of the trajectory \<open>xs\<close>.
\<close>

definition spec_cost :: "mat \<Rightarrow> mat \<Rightarrow> vec \<Rightarrow> vec \<Rightarrow> vec \<Rightarrow> real \<Rightarrow> fl \<Rightarrow> fl \<Rightarrow> fl" where
  "spec_cost u xs price T_ub T_lb dt u_lb u_ub =
     (\<Sum>t\<leftarrow>[0..<length u]. price ! t * \<bar>hd (u ! t)\<bar> * Fin (dt / 3600)) +
     (\<Sum>t\<leftarrow>[0..<length u]. relu (hd (xs ! t) - T_ub ! t)) +
     (\<Sum>t\<leftarrow>[0..<length u]. relu (T_lb ! t - hd (xs ! t))) +
     (\<Sum>t\<leftarrow>[0..<length u]. relu (hd (u ! t) - u_ub) + relu (u_lb - hd (u ! t)))"

text \<open>
  Inputs of the examples: a gradient oracle and two optimizers of the simplest kind (one
  that moves every entry down by the learning rate, one whose updates are zero), the
  matrices of the zone model with all seven parameters 1, a controller with a horizon of
  three steps and zero prices, one with a horizon of two steps and prices 1, and a horizon
  of three equal disturbance rows.
\<close>

abbreviation ex_grad :: autodiff where
  "ex_grad \<equiv> (\<lambda>L p. p)"

abbreviation ex_adamw :: "fl \<Rightarrow> unit optimizer" where
  "ex_adamw \<equiv> (\<lambda>lr. \<lparr>opt_init = (\<lambda>p. ()),
                       opt_update = (\<lambda>g os p. (map (map (\<lambda>v. - lr)) p, ()))\<rparr>)"

abbreviation ex_A :: mat where
  "ex_A \<equiv> [[- 2, 0, 1], [0, - 2, 1], [1, 1, - 2]]"

abbreviation ex_B :: mat where
  "ex_B \<equiv> [[1, 1, 1, 0, 0], [1, 0, 0, 1, 0], [0, 0, 0, 0, 1]]"

abbreviation ex_mpc :: MPC where
  "ex_mpc \<equiv> MPC_init 3 1 1 (1, 1, 1, 1, 1, 1, 1) (replicate 24 0)"

abbreviation ex_still :: "fl \<Rightarrow> unit optimizer" where
  "ex_still \<equiv> (\<lambda>lr. \<lparr>opt_init = (\<lambda>p. ()),
                       opt_update = (\<lambda>g os p. (map (map (\<lambda>v. 0)) p, ()))\<rparr>)"

abbreviation ex_mpc2 :: MPC where
  "ex_mpc2 \<equiv> MPC_init 2 1 1 (1, 1, 1, 1, 1, 1, 1) (replicate 24 1)"

abbreviation ex_dist :: mat where
  "ex_dist \<equiv> [[24, 0, 0, 0, 0], [24, 0, 0, 0, 0], [24, 0, 0, 0, 0]]"

section \<open>Properties\<close>

subsection \<open>Arithmetic of the floating-point values\<close>

lemma numeral_fl: "(numeral k :: fl) = Fin (numeral k)"
  by (induction k) (simp_all only: numeral.simps one_fl_def plus_fl.simps)

lemma NaN_simps [simp]:
  "\<not> x \<le> NaN" "\<not> NaN \<le> x" "\<not> x < NaN" "\<not> NaN < x"
  "x + NaN = NaN" "NaN + x = NaN" "x * NaN = NaN" "NaN * x = NaN"
  "x - NaN = NaN" "NaN - x = NaN" "x / NaN = NaN" "NaN / x = NaN"
  by (cases x; simp add: less_fl_def minus_fl_def divide_fl_def)+

lemma Fin_zero [simp]: "x + Fin 0 = x" "Fin 0 + x = x"
  by (cases x; simp)+

lemma less_Fin: "Fin a < Fin b \<longleftrightarrow> a < b"
  by (auto simp: less_fl_def)

lemma max_Fin:
  "max (Fin a) (Fin b) = Fin (max a b)" "max NaN x = NaN"
  "max PInf (Fin b) = PInf" "max NInf (Fin b) = Fin b"
  by (simp_all add: max_def)

lemma not_less_fl: "\<not> Fin t < x \<longleftrightarrow> x \<le> Fin t \<or> x = NaN"
  by (cases x) (auto simp: less_fl_def)

lemma minus_one_divide_fl: "(- 1) / c = - (1 / c)" for c :: fl
  by (cases c) (simp_all add: divide_fl_def one_fl_def)

lemmas fl_eval = numeral_fl zero_fl_def one_fl_def minus_fl_def divide_fl_def less_Fin max_Fin


lemma zeros_3_3: "zeros 3 3 = [[0, 0, 0], [0, 0, 0], [0, 0, 0]]"
  by (simp add: zeros_def numeral_3_eq_3)

lemma zeros_3_5: "zeros 3 5 = [[0, 0, 0, 0, 0], [0, 0, 0, 0, 0], [0, 0, 0, 0, 0]]"
  by (simp add: zeros_def numeral_3_eq_3 eval_nat_numeral)

lemma zeros_1_3: "zeros 1 3 = [[0, 0, 0]]"
  by (simp add: zeros_def numeral_3_eq_3)

lemma zeros_1_5: "zeros 1 5 = [[0, 0, 0, 0, 0]]"
  by (simp add: zeros_def eval_nat_numeral)

subsection \<open>Evaluating results\<close>

lemma bindE_simps [simp]:
  "bindE (Inl e) k = Inl e"
  "bindE (Inr v) k = k v"
  by (simp_all add: bindE_def)

lemma bindC_simps [simp]:
  "bindC None k = None"
  "bindC (Some (Inl e)) k = Some (Inl e)"
  "bindC (Some (Inr v)) k = k v"
  by (simp_all add: bindC_def)

lemma jnp_row_in_range: "i < length d \<Longrightarrow> jnp_row d i = Inr (d ! i)"
  by (auto simp: jnp_row_def)




subsection \<open>The loop of the simulation\<close>


lemma forward_body_fields:
  assumes "forward_body func solver A B d te dt s = Inr s'"
  shows "fw_tprev s' = fw_tnext s" "fw_tnext s' = min (fw_tnext s + dt) te" 
    "fw_i s' = Suc (fw_i s)" "length (fw_x_all s') = Suc (length (fw_x_all s))"
    "jnp_row d (Suc (fw_i s)) = Inr (snd (snd (fw_args s')))"
    "fst (fw_args s') = A" "fst (snd (fw_args s')) = B"
  using assms 
  by (auto simp: forward_body_def bindE_def Let_def concat0_def split: sum.splits prod.splits if_splits)


lemma forward_loop_more:
  "fw_tprev s < te \<Longrightarrow>
   forward_loop func solver A B d te dt s =
     (case forward_body func solver A B d te dt s of
        Inl e \<Rightarrow> Some (Inl e)
      | Inr s' \<Rightarrow> forward_loop func solver A B d te dt s')"
  by (subst forward_loop.simps) simp

lemma forward_loop_done:
  "\<not> fw_tprev s < te \<Longrightarrow> forward_loop func solver A B d te dt s = Some (Inr s)"
  by (subst forward_loop.simps) simp


lemma forward_loop_terminates:
  assumes dt: "0 < dt"
  shows "te - fw_tprev s \<le> real k * dt \<Longrightarrow> min (fw_tprev s + dt) te \<le> fw_tnext s \<Longrightarrow>
         \<exists>res. forward_loop func solver A B d te dt s = Some res"
proof (induction k arbitrary: s)
  case 0
  then show ?case by (simp add: forward_loop_done)
next
  case (Suc k)
  show ?case
  proof (cases "fw_tprev s < te")
    case False
    then show ?thesis by (simp add: forward_loop_done)
  next
    case True
    show ?thesis
    proof (cases "forward_body func solver A B d te dt s")
      case (Inl e)
      with True show ?thesis by (simp add: forward_loop_more)
    next
      case (Inr s')
      have nn: "0 \<le> real k * dt" using dt by simp
      have "te - (fw_tprev s + dt) \<le> real k * dt" using Suc.prems(1) by (simp add: algebra_simps)
      then have "te - min (fw_tprev s + dt) te \<le> real k * dt" using nn by (simp add: min_def)
      then have p1: "te - fw_tprev s' \<le> real k * dt"
        using forward_body_fields(1)[OF Inr] Suc.prems(2) by linarith
      have p2: "min (fw_tprev s' + dt) te \<le> fw_tnext s'"
        using forward_body_fields(1,2)[OF Inr] by simp
      from Suc.IH[OF p1 p2] Inr True show ?thesis by (simp add: forward_loop_more)
    qed
  qed
qed


lemma steps_bound: "0 < dt \<Longrightarrow> \<exists>k. (te::real) - ts \<le> real k * dt"
proof -
  assume dt: "0 < dt"
  obtain k where "(te - ts) / dt \<le> real k" using real_arch_simple by blast
  then have "te - ts \<le> real k * dt" using dt by (simp add: pos_divide_le_eq)
  then show ?thesis ..
qed



subsection \<open>The loop of the optimisation\<close>

declare step_loop.simps [simp del]

lemma step_body_Inr:
  assumes "step_body grad optimizer L s = Some (Inr s')"
  shows "ls_epoch s' = Suc (ls_epoch s)"
    and "ls_u_ph s' = Some (ls_params s)"
    and "L (ls_params s) = Some (Inr (ls_loss s'))"
    and "apply_updates (ls_params s)
           (fst (opt_update optimizer (grad L (ls_params s)) (ls_opt_state s) (ls_params s)))
         = Inr (ls_params s')"
    and "ls_opt_state s' =
           snd (opt_update optimizer (grad L (ls_params s)) (ls_opt_state s) (ls_params s))"
  using assms
  by (auto simp: step_body_def value_and_grad_def bindC_def Let_def
           split: option.splits sum.splits prod.splits)

lemma step_loop_more:
  "ls_epoch s < n_epochs \<Longrightarrow> tolerance < ls_loss s \<Longrightarrow>
   step_loop grad optimizer L s = bindC (step_body grad optimizer L s) (step_loop grad optimizer L)"
  by (subst step_loop.simps) (simp add: bindC_def split: option.splits sum.splits)

lemma step_loop_done:
  "\<not> (ls_epoch s < n_epochs \<and> tolerance < ls_loss s) \<Longrightarrow>
   step_loop grad optimizer L s = Some (Inr s)"
  by (subst step_loop.simps) auto

lemma step_iter_epoch:
  "step_iter grad optimizer L k s = Some (Inr s') \<Longrightarrow> ls_epoch s' = ls_epoch s + k"
proof (induction k arbitrary: s)
  case 0
  then show ?case by simp
next
  case (Suc k)
  then obtain s1 where b: "step_body grad optimizer L s = Some (Inr s1)"
    and r: "step_iter grad optimizer L k s1 = Some (Inr s')"
    by (auto simp: bindC_def split: option.splits sum.splits)
  from Suc.IH[OF r] step_body_Inr(1)[OF b] show ?case by simp
qed

lemma step_iter_snoc:
  "step_iter grad optimizer L (Suc k) s =
     bindC (step_iter grad optimizer L k s) (step_body grad optimizer L)"
proof (induction k arbitrary: s)
  case 0
  show ?case by (cases "step_body grad optimizer L s" rule: option.exhaust)
      (auto simp: bindC_def split: sum.splits)
next
  case (Suc k)
  have "step_iter grad optimizer L (Suc (Suc k)) s =
          bindC (step_body grad optimizer L s) (step_iter grad optimizer L (Suc k))" by simp
  also have "\<dots> = bindC (step_body grad optimizer L s)
          (\<lambda>s1. bindC (step_iter grad optimizer L k s1) (step_body grad optimizer L))"
    using Suc.IH by presburger
  also have "\<dots> = bindC (step_iter grad optimizer L (Suc k) s) (step_body grad optimizer L)"
    by (auto simp: bindC_def split: option.splits sum.splits)
  finally show ?case .
qed

lemma step_iter_prefix:
  "step_iter grad optimizer L n s = Some (Inr s') \<Longrightarrow> k \<le> n \<Longrightarrow>
   \<exists>sk. step_iter grad optimizer L k s = Some (Inr sk)"
proof (induction n arbitrary: s')
  case 0
  then show ?case by simp
next
  case (Suc n)
  show ?case
  proof (cases "k = Suc n")
    case True
    with Suc.prems show ?thesis by blast
  next
    case False
    from Suc.prems(1) obtain sn where "step_iter grad optimizer L n s = Some (Inr sn)"
      unfolding step_iter_snoc by (auto simp: bindC_def split: option.splits sum.splits)
    from Suc.IH[OF this] False Suc.prems(2) show ?thesis by simp
  qed
qed

text \<open>The loop returns the first iterate at which its test fails.\<close>

lemma step_loop_iter:
  "step_loop grad optimizer L s = Some (Inr s') \<Longrightarrow>
   \<exists>N. step_iter grad optimizer L N s = Some (Inr s') \<and>
       \<not> (ls_epoch s' < n_epochs \<and> tolerance < ls_loss s') \<and>
       (\<forall>k<N. \<exists>sk. step_iter grad optimizer L k s = Some (Inr sk) \<and>
                 ls_epoch sk < n_epochs \<and> tolerance < ls_loss sk)"
proof (induction grad optimizer L s rule: step_loop.induct)
  case (1 grad optimizer L s)
  show ?case
  proof (cases "ls_epoch s < n_epochs \<and> tolerance < ls_loss s")
    case False
    then have "s' = s" using "1.prems" by (simp add: step_loop_done)
    with False show ?thesis by (intro exI[of _ 0]) simp
  next
    case True
    then obtain s1 where b: "step_body grad optimizer L s = Some (Inr s1)"
      and r: "step_loop grad optimizer L s1 = Some (Inr s')"
      using "1.prems" by (auto simp: step_loop_more bindC_def split: option.splits sum.splits)
    from "1.IH"[OF True b refl r] obtain N where
      N: "step_iter grad optimizer L N s1 = Some (Inr s')"
         "\<not> (ls_epoch s' < n_epochs \<and> tolerance < ls_loss s')"
         "\<forall>k<N. \<exists>sk. step_iter grad optimizer L k s1 = Some (Inr sk) \<and>
                 ls_epoch sk < n_epochs \<and> tolerance < ls_loss sk"
      by blast
    have "\<exists>sk. step_iter grad optimizer L k s = Some (Inr sk) \<and>
                 ls_epoch sk < n_epochs \<and> tolerance < ls_loss sk" if "k < Suc N" for k
    proof (cases k)
      case 0
      with True show ?thesis by simp
    next
      case (Suc j)
      with that N(3) b show ?thesis by simp
    qed
    with N(1,2) b show ?thesis by (intro exI[of _ "Suc N"]) simp
  qed
qed

lemma iter_loop:
  "step_iter grad optimizer L N s = Some (Inr s') \<Longrightarrow>
   \<not> (ls_epoch s' < n_epochs \<and> tolerance < ls_loss s') \<Longrightarrow>
   (\<forall>k<N. \<forall>sk. step_iter grad optimizer L k s = Some (Inr sk) \<longrightarrow>
                 ls_epoch sk < n_epochs \<and> tolerance < ls_loss sk) \<Longrightarrow>
   step_loop grad optimizer L s = Some (Inr s')"
proof (induction N arbitrary: s)
  case 0
  then show ?case by (simp add: step_loop_done)
next
  case (Suc N)
  from Suc.prems(1) obtain s1 where b: "step_body grad optimizer L s = Some (Inr s1)"
    and r: "step_iter grad optimizer L N s1 = Some (Inr s')"
    by (auto simp: bindC_def split: option.splits sum.splits)
  have c: "ls_epoch s < n_epochs \<and> tolerance < ls_loss s" using Suc.prems(3) by auto
  have "\<forall>k<N. \<forall>sk. step_iter grad optimizer L k s1 = Some (Inr sk) \<longrightarrow>
                 ls_epoch sk < n_epochs \<and> tolerance < ls_loss sk"
  proof (intro allI impI)
    fix k sk assume "k < N" "step_iter grad optimizer L k s1 = Some (Inr sk)"
    then show "ls_epoch sk < n_epochs \<and> tolerance < ls_loss sk"
      using Suc.prems(3)[rule_format, of "Suc k" sk] b by simp
  qed
  from Suc.IH[OF r Suc.prems(2) this] b c show ?case by (simp add: step_loop_more)
qed

lemma jnp_take_nonempty: "v \<noteq> [] \<Longrightarrow> hs \<noteq> [] \<Longrightarrow> \<exists>p. jnp_take v hs = Inr p"
  by (simp add: jnp_take_def)

lemma step_cost_ready:
  assumes "step_ready self"
  shows "\<exists>ts state p ub lb. mpc_time self = Some ts \<and> mpc_state self = Some state \<and>
     jnp_take (mpc_price self) (map (hour_index ts (mpc_dt self)) [0..<mpc_PH self]) = Inr p \<and>
     jnp_take (mpc_T_ub self) (map (hour_index ts (mpc_dt self)) [0..<mpc_PH self]) = Inr ub \<and>
     jnp_take (mpc_T_lb self) (map (hour_index ts (mpc_dt self)) [0..<mpc_PH self]) = Inr lb \<and>
     step_cost self disturbance =
       (\<lambda>u. loss_mpc self u state ts (ts + real (mpc_PH self) * mpc_dt self) (mpc_dt self)
                  disturbance (column ub) (column lb) (column p))"
proof -
  from assms obtain ts state where t: "mpc_time self = Some ts" and st: "mpc_state self = Some state"
    by (auto simp: step_ready_def)
  let ?h = "map (hour_index ts (mpc_dt self)) [0..<mpc_PH self]"
  from assms have h: "?h \<noteq> []" by (simp add: step_ready_def)
  from assms obtain p where p: "jnp_take (mpc_price self) ?h = Inr p"
    using jnp_take_nonempty[OF _ h, of "mpc_price self"] by (auto simp: step_ready_def)
  from assms obtain ub where ub: "jnp_take (mpc_T_ub self) ?h = Inr ub"
    using jnp_take_nonempty[OF _ h, of "mpc_T_ub self"] by (auto simp: step_ready_def)
  from assms obtain lb where lb: "jnp_take (mpc_T_lb self) ?h = Inr lb"
    using jnp_take_nonempty[OF _ h, of "mpc_T_lb self"] by (auto simp: step_ready_def)
  have "step_cost self disturbance =
       (\<lambda>u. loss_mpc self u state ts (ts + real (mpc_PH self) * mpc_dt self) (mpc_dt self)
                  disturbance (column ub) (column lb) (column p))"
    by (rule ext) (simp add: step_cost_def t st p ub lb Let_def)
  with t st p ub lb show ?thesis by blast
qed

lemma step_run_ready:
  assumes "step_ready self"
  shows "step_run grad adamw self disturbance =
     step_loop grad (adamw (1 / 100)) (step_cost self disturbance) (step_init adamw self)"
proof -
  from step_cost_ready[OF assms, of disturbance] obtain ts state p ub lb where
    "mpc_time self = Some ts" "mpc_state self = Some state"
    "jnp_take (mpc_price self) (map (hour_index ts (mpc_dt self)) [0..<mpc_PH self]) = Inr p"
    "jnp_take (mpc_T_ub self) (map (hour_index ts (mpc_dt self)) [0..<mpc_PH self]) = Inr ub"
    "jnp_take (mpc_T_lb self) (map (hour_index ts (mpc_dt self)) [0..<mpc_PH self]) = Inr lb"
    "step_cost self disturbance =
       (\<lambda>u. loss_mpc self u state ts (ts + real (mpc_PH self) * mpc_dt self) (mpc_dt self)
                  disturbance (column ub) (column lb) (column p))"
    by blast
  then show ?thesis by (simp add: step_run_def step_init_def Let_def)
qed

lemma step_run_not_ready:
  assumes "\<not> step_ready self"
  shows "\<exists>e. step_run grad adamw self disturbance = Some (Inl e)"
  using assms
  by (auto simp: step_ready_def step_run_def jnp_take_def Let_def split: option.splits)

lemma step_init_fields [simp]:
  "ls_epoch (step_init adamw self) = 0"
  "ls_loss (step_init adamw self) = BIG_NUMBER"
  "ls_params (step_init adamw self) = mpc_u_start self"
  "ls_u_ph (step_init adamw self) = None"
  by (simp_all add: step_init_def)

lemma tolerance_lt_BIG: "tolerance < BIG_NUMBER"
  by (simp add: tolerance_def BIG_NUMBER_def fl_eval)

text \<open>The test \<^verbatim>\<open>loss > tolerance\<close> fails on a cost within the tolerance, and on NaN.\<close>

lemma not_above_tolerance: "\<not> tolerance < x \<longleftrightarrow> x \<le> tolerance \<or> x = NaN"
  by (simp add: tolerance_def fl_eval not_less_fl)

lemma step_iter_last:
  assumes "step_iter grad optimizer L (Suc k) s = Some (Inr s')"
  shows "\<exists>sp. step_iter grad optimizer L k s = Some (Inr sp) \<and>
              step_body grad optimizer L sp = Some (Inr s')"
  using assms unfolding step_iter_snoc
  by (auto simp: bindC_def split: option.splits sum.splits)

lemma step_run_first_pass:
  assumes "step_ready self"
  shows "step_run grad adamw self d =
     bindC (step_body grad (adamw (1 / 100)) (step_cost self d) (step_init adamw self))
       (step_loop grad (adamw (1 / 100)) (step_cost self d))"
  unfolding step_run_ready[OF assms]
  by (rule step_loop_more) (simp_all add: n_epochs_def tolerance_lt_BIG)

lemma step_run_Inr:
  assumes "step_run grad adamw self d = Some (Inr s')"
  shows "step_ready self"
    and "\<exists>N. 1 \<le> N \<and> N \<le> n_epochs \<and> ls_epoch s' = N \<and>
          step_iter grad (adamw (1 / 100)) (step_cost self d) N (step_init adamw self) = Some (Inr s') \<and>
          (N = n_epochs \<or> \<not> tolerance < ls_loss s') \<and>
          (\<forall>k<N. \<exists>sk. step_iter grad (adamw (1 / 100)) (step_cost self d) k (step_init adamw self)
                          = Some (Inr sk) \<and> tolerance < ls_loss sk)"
proof -
  show r: "step_ready self"
    using assms step_run_not_ready[of self grad adamw d] by auto
  let ?it = "step_iter grad (adamw (1 / 100)) (step_cost self d)"
  let ?s0 = "step_init adamw self"
  from assms have "step_loop grad (adamw (1 / 100)) (step_cost self d) ?s0 = Some (Inr s')"
    by (simp add: step_run_ready[OF r])
  from step_loop_iter[OF this] obtain N where
    it: "?it N ?s0 = Some (Inr s')"
    and stop: "\<not> (ls_epoch s' < n_epochs \<and> tolerance < ls_loss s')"
    and before: "\<forall>k<N. \<exists>sk. ?it k ?s0 = Some (Inr sk) \<and> ls_epoch sk < n_epochs \<and> tolerance < ls_loss sk"
    by blast
  have ep: "ls_epoch s' = N" using step_iter_epoch[OF it] by simp
  have "N \<noteq> 0"
  proof
    assume "N = 0"
    with it have "s' = ?s0" by simp
    with stop show False by (simp add: n_epochs_def tolerance_lt_BIG)
  qed
  moreover have "N \<le> n_epochs"
  proof (rule ccontr)
    assume "\<not> N \<le> n_epochs"
    then have "n_epochs < N" by simp
    with before obtain sk where "?it n_epochs ?s0 = Some (Inr sk)" "ls_epoch sk < n_epochs" by blast
    with step_iter_epoch[of grad "adamw (1 / 100)" "step_cost self d" n_epochs ?s0 sk]
    show False by simp
  qed
  moreover have "N = n_epochs \<or> \<not> tolerance < ls_loss s'" using stop ep \<open>N \<le> n_epochs\<close> by auto
  ultimately show "\<exists>N. 1 \<le> N \<and> N \<le> n_epochs \<and> ls_epoch s' = N \<and> ?it N ?s0 = Some (Inr s') \<and>
          (N = n_epochs \<or> \<not> tolerance < ls_loss s') \<and>
          (\<forall>k<N. \<exists>sk. ?it k ?s0 = Some (Inr sk) \<and> tolerance < ls_loss sk)"
    using it ep before by (intro exI[of _ N]) auto
qed

subsection \<open>The controller object across the calls\<close>

lemma bindM_reads:
  "bindM (reads g) k self =
     (case g self of None \<Rightarrow> (None, self) | Some (Inl e) \<Rightarrow> (Some (Inl e), self)
      | Some (Inr v) \<Rightarrow> k v self)"
  by (simp add: bindM_def reads_def)

lemma bindM_kept:
  assumes "m self = (r, self)"
  shows "bindM m k self =
     (case r of None \<Rightarrow> (None, self) | Some (Inl e) \<Rightarrow> (Some (Inl e), self)
      | Some (Inr v) \<Rightarrow> k v self)"
  using assms by (simp add: bindM_def)

text \<open>
  Each of the three cost methods returns what the function of the same name gives on the
  controller object, and leaves the object as it was.
\<close>

lemma get_u_violations_call_eq:
  "get_u_violations_call u self = (Some (get_u_violations self u), self)"
  by (simp add: get_u_violations_call_def get_u_violations_def bindM_reads reads_def)

lemma get_T_violations_call_eq:
  "get_T_violations_call state ts te dt d ub lb self =
     (get_T_violations self state ts te dt d ub lb, self)"
  by (simp add: get_T_violations_call_def get_T_violations_def bindM_reads reads_def bindC_def
           split: option.splits sum.splits prod.splits)

lemma loss_mpc_call_eq:
  "loss_mpc_call u state ts te dt d ub lb price self =
     (loss_mpc self u state ts te dt d ub lb price, self)"
proof -
  have T: "bindM (get_T_violations_call state ts te dt d' ub lb) k self =
      (case get_T_violations self state ts te dt d' ub lb of None \<Rightarrow> (None, self)
       | Some (Inl e) \<Rightarrow> (Some (Inl e), self) | Some (Inr v) \<Rightarrow> k v self)" for d' and k :: "fl \<Rightarrow> fl meth"
    by (rule bindM_kept) (rule get_T_violations_call_eq)
  have U: "bindM (get_u_violations_call u) k self =
      (case get_u_violations self u of Inl e \<Rightarrow> (Some (Inl e), self) | Inr v \<Rightarrow> k v self)"
    for k :: "fl \<Rightarrow> fl meth"
    by (simp add: bindM_kept[OF get_u_violations_call_eq] split: sum.splits)
  show ?thesis
    by (simp add: loss_mpc_call_def loss_mpc_def objective_def bindM_reads reads_def T U bindC_def
             split: option.splits sum.splits)
qed

lemma step_loss_call_eq:
  "step_loss_call state ts te d ub lb price u self =
     (loss_mpc self u state ts te (mpc_dt self) d ub lb price, self)"
  by (simp add: step_loss_call_def bindM_reads loss_mpc_call_eq)

text \<open>
  The loop on a cost method that leaves the controller object as it was: every pass
  leaves it so, and the loop is the loop of the function that the method computes.
\<close>

lemma value_and_grad_call_eq:
  assumes "\<And>q. Lc q self = (L q, self)"
  shows "value_and_grad_call grad Lc p self = (value_and_grad grad L p, self)"
proof -
  have "(\<lambda>q. fst (Lc q self)) = L" by (rule ext) (simp add: assms)
  then show ?thesis by (simp add: value_and_grad_call_def value_and_grad_def assms)
qed

lemma step_body_call_eq:
  assumes "\<And>q. Lc q self = (L q, self)"
  shows "step_body_call grad optimizer Lc s self = (step_body grad optimizer L s, self)"
proof -
  have v: "value_and_grad_call grad Lc (ls_params s) self =
      (value_and_grad grad L (ls_params s), self)"
    by (rule value_and_grad_call_eq) (rule assms)
  show ?thesis
    by (simp add: step_body_call_def step_body_def Let_def bindM_reads reads_def
          bindM_kept[where m = "value_and_grad_call grad Lc (ls_params s)", OF v] bindC_def
        split: option.splits sum.splits prod.splits)
qed

lemma step_iter_call_eq:
  assumes "\<And>q. Lc q self = (L q, self)"
  shows "step_iter_call grad optimizer Lc k s self = (step_iter grad optimizer L k s, self)"
proof (induction k arbitrary: s)
  case 0
  show ?case by (simp add: reads_def)
next
  case (Suc k)
  have b: "step_body_call grad optimizer Lc s self = (step_body grad optimizer L s, self)"
    by (rule step_body_call_eq) (rule assms)
  show ?case
    by (simp add: bindM_kept[where m = "step_body_call grad optimizer Lc s", OF b] Suc.IH bindC_def
        split: option.splits sum.splits)
qed

declare step_loop_call.simps [simp del]

lemma step_loop_call_more:
  "ls_epoch s < n_epochs \<Longrightarrow> tolerance < ls_loss s \<Longrightarrow>
   step_loop_call grad optimizer Lc s self =
     (case step_body_call grad optimizer Lc s self of
        (None, self') \<Rightarrow> (None, self')
      | (Some (Inl e), self') \<Rightarrow> (Some (Inl e), self')
      | (Some (Inr s'), self') \<Rightarrow> step_loop_call grad optimizer Lc s' self')"
  by (subst step_loop_call.simps) simp

lemma step_loop_call_done:
  "\<not> (ls_epoch s < n_epochs \<and> tolerance < ls_loss s) \<Longrightarrow>
   step_loop_call grad optimizer Lc s self = (Some (Inr s), self)"
  by (subst step_loop_call.simps) auto

lemma step_loop_call_eq:
  "(\<And>q. Lc q self = (L q, self)) \<Longrightarrow>
   step_loop_call grad optimizer Lc s self = (step_loop grad optimizer L s, self)"
proof (induction grad optimizer L s rule: step_loop.induct)
  case (1 grad optimizer L s)
  have b: "step_body_call grad optimizer Lc s self = (step_body grad optimizer L s, self)"
    by (rule step_body_call_eq) (rule "1.prems")
  show ?case
  proof (cases "ls_epoch s < n_epochs \<and> tolerance < ls_loss s")
    case False
    then show ?thesis by (simp add: step_loop_call_done step_loop_done)
  next
    case True
    show ?thesis
    proof (cases "step_body grad optimizer L s")
      case None
      with True b show ?thesis
        by (simp add: step_loop_call_more step_loop_more)
    next
      case (Some r)
      show ?thesis
      proof (cases r)
        case (Inl e)
        with True b Some show ?thesis
          by (simp add: step_loop_call_more step_loop_more)
      next
        case (Inr s')
        have "step_loop_call grad optimizer Lc s' self = (step_loop grad optimizer L s', self)"
          using "1.IH"[OF True Some Inr "1.prems"] by simp
        with True b Some Inr show ?thesis
          by (simp add: step_loop_call_more step_loop_more)
      qed
    qed
  qed
qed

text \<open>\<^verbatim>\<open>MPC.step\<close> returns what its loop leaves in \<^verbatim>\<open>u_ph\<close>, and the controller as it was.\<close>

lemma step_eq:
  "step grad adamw self d =
     (bindC (step_run grad adamw self d)
        (\<lambda>s. case ls_u_ph s of None \<Rightarrow> Some (Inl UnboundLocalError) | Some u_ph \<Rightarrow> Some (Inr u_ph)),
      self)"
proof -
  have loop: "bindM (step_loop_call grad optimizer (step_loss_call state ts te d ub lb price) s) k self =
      (case step_loop grad optimizer
              (\<lambda>u. loss_mpc self u state ts te (mpc_dt self) d ub lb price) s of
         None \<Rightarrow> (None, self) | Some (Inl e) \<Rightarrow> (Some (Inl e), self) | Some (Inr v) \<Rightarrow> k v self)"
    for optimizer :: "'a optimizer" and state ts te ub lb price s and k :: "'a loop_state \<Rightarrow> mat meth"
    by (rule bindM_kept) (rule step_loop_call_eq, rule step_loss_call_eq)
  show ?thesis
    by (simp add: step_def step_run_def bindM_reads reads_def Let_def loop bindC_def
             split: option.splits sum.splits)
qed

lemma step_result:
  "fst (step grad adamw self d) =
     bindC (step_run grad adamw self d)
       (\<lambda>s. case ls_u_ph s of None \<Rightarrow> Some (Inl UnboundLocalError) | Some u_ph \<Rightarrow> Some (Inr u_ph))"
  by (simp add: step_eq)

lemma step_iter_stationary:
  assumes "L u = Some (Inr c)"
    and "opt_update optimizer (grad L u) os u = (z, os)"
    and "apply_updates u z = Inr u"
  shows "step_iter grad optimizer L (Suc k)
           \<lparr>ls_epoch = e, ls_loss = l, ls_params = u, ls_opt_state = os, ls_u_ph = w\<rparr> =
         Some (Inr \<lparr>ls_epoch = e + Suc k, ls_loss = c, ls_params = u, ls_opt_state = os,
                    ls_u_ph = Some u\<rparr>)"
proof (induction k arbitrary: e l w)
  case 0
  show ?case using assms by (simp add: step_body_def value_and_grad_def Let_def)
next
  case (Suc k)
  have "step_body grad optimizer L
          \<lparr>ls_epoch = e, ls_loss = l, ls_params = u, ls_opt_state = os, ls_u_ph = w\<rparr> =
        Some (Inr \<lparr>ls_epoch = e + 1, ls_loss = c, ls_params = u, ls_opt_state = os,
                    ls_u_ph = Some u\<rparr>)"
    using assms by (simp add: step_body_def value_and_grad_def Let_def)
  then show ?case using Suc.IH[of "e + 1" c "Some u"] by simp
qed

subsection \<open>Evaluating the controller and the cost\<close>

lemma get_ABCD_ones:
  "get_ABCD (Fin 1) (Fin 1) (Fin 1) (Fin 1) (Fin 1) (Fin 1) (Fin 1) =
     (ex_A,
      ex_B,
      [[1, 0, 0]], Scalar 0)"
  unfolding get_ABCD_def Let_def zeros_3_3 zeros_3_5 zeros_1_3 at_set_def
  by (simp add: eval_nat_numeral fl_eval)

lemma MPC_init_T_ub:
  "mpc_T_ub (MPC_init PH CH dt predictor price) =
     [30, 30, 30, 30, 30, 30, 30, 30, 26, 26, 26, 26, 26, 26, 26, 26, 26, 26, 30, 30, 30, 30, 30, 30]"
  by (simp add: MPC_init_def Let_def slice_set_def upt_rec_numeral eval_nat_numeral)

lemma MPC_init_T_lb:
  "mpc_T_lb (MPC_init PH CH dt predictor price) =
     [12, 12, 12, 12, 12, 12, 12, 12, 22, 22, 22, 22, 22, 22, 22, 22, 22, 22, 12, 12, 12, 12, 12, 12]"
  by (simp add: MPC_init_def Let_def slice_set_def upt_rec_numeral eval_nat_numeral)

lemma MPC_init_u_bounds:
  "mpc_u_lb (MPC_init PH CH dt predictor price) = [[- 10]]"
  "mpc_u_ub (MPC_init PH CH dt predictor price) = [[0]]"
  "mpc_NU (MPC_init PH CH dt predictor price) = 1"
  "mpc_u_start (MPC_init PH CH dt predictor price) = replicate PH [0]"
  by (simp_all add: MPC_init_def Let_def ones_def jnp_repeat_def column_def map_replicate_const
        fl_eval)

lemmas mpc_eval = MPC_init_def set_time_def set_state_def ones_def jnp_repeat_def column_def
  slice_set_def upt_rec_numeral Let_def

lemmas array_eval = bc2_def bc1_def col0_def relu2_def relu_def sum2_def concat1_def concat0_def
  matvec_def jnp_row_def jnp_take_def jnp_at_def fl_eval

lemmas forward_eval = forward_def forward_run_def forward_loop_more forward_loop_done
  forward_body_def Euler_def f_def zone_state_space_def

lemmas cost_eval = step_cost_def loss_mpc_def get_T_violations_def T_violations_def
  get_u_violations_def objective_def hour_index_def py_int_def get_ABCD_ones


subsection \<open>What the cost computes\<close>

lemma sequenceE_map:
  "(\<And>x. x \<in> set xs \<Longrightarrow> g x = Inr (h x)) \<Longrightarrow> sequenceE (map g xs) = Inr (map h xs)"
  by (induction xs) simp_all

lemma bc1_single_right: "bc1 op v [b] = Inr (map (\<lambda>z. op z b) v)"
  by (cases v rule: list.exhaust) (auto simp: bc1_def)

lemma bc1_single_left: "bc1 op [b] v = Inr (map (op b) v)"
  by (cases v rule: list.exhaust) (auto simp: bc1_def)

lemma bc2_row_column: "bc2 op [v] (column c) = Inr (map (\<lambda>b. map (\<lambda>z. op z b) v) c)"
proof (cases "length c = 1")
  case True
  then obtain b where "c = [b]" by (cases c) auto
  then show ?thesis by (simp add: bc2_def column_def bc1_single_right)
next
  case False
  have "sequenceE (map (bc1 op v) (column c)) = Inr (map (\<lambda>r. map (\<lambda>z. op z (hd r)) v) (column c))"
    by (rule sequenceE_map) (auto simp: column_def bc1_single_right)
  with False show ?thesis by (simp add: bc2_def column_def comp_def)
qed

lemma bc2_column_row: "bc2 op (column c) [v] = Inr (map (\<lambda>b. map (op b) v) c)"
proof (cases "length c = 1")
  case True
  then obtain b where "c = [b]" by (cases c) auto
  then show ?thesis by (simp add: bc2_def column_def bc1_single_left)
next
  case False
  have "sequenceE (map (\<lambda>r. bc1 op r v) (column c)) = Inr (map (\<lambda>r. map (op (hd r)) v) (column c))"
    by (rule sequenceE_map) (auto simp: column_def bc1_single_left)
  with False show ?thesis by (simp add: bc2_def column_def comp_def)
qed

text \<open>What the last lines of \<^verbatim>\<open>get_T_violations\<close> compute: every sample against every bound.\<close>

lemma T_violations_all_pairs:
  assumes "\<not> list_ex (\<lambda>r. r = []) xs"
  shows "T_violations xs (column T_ub) (column T_lb) =
     Inr ((\<Sum>b\<leftarrow>T_ub. \<Sum>z\<leftarrow>map hd xs. relu (z - b)) + (\<Sum>b\<leftarrow>T_lb. \<Sum>z\<leftarrow>map hd xs. relu (b - z)))"
  using assms
  by (simp add: T_violations_def col0_def bc2_row_column bc2_column_row relu2_def sum2_def comp_def)

lemma bc2_columns:
  "length a = length b \<Longrightarrow> bc2 op (column a) (column b) = Inr (column (map2 op a b))"
proof -
  assume len: "length a = length b"
  have "sequenceE (map2 (bc1 op) (column a) (column b)) = Inr (column (map2 op a b))"
    using len by (induction a b rule: list_induct2) (simp_all add: column_def bc1_def)
  with len show ?thesis by (simp add: bc2_def column_def)
qed

lemma bc2_scalar_right: "bc2 op M [[c]] = Inr (map (map (\<lambda>z. op z c)) M)"
proof -
  have s: "sequenceE (map (\<lambda>r. bc1 op r [c]) M) = Inr (map (map (\<lambda>z. op z c)) M)"
    by (rule sequenceE_map) (simp add: bc1_single_right)
  show ?thesis
  proof (cases "length M = 1")
    case True
    then obtain r where "M = [r]" by (cases M) auto
    then show ?thesis by (simp add: bc2_def bc1_single_right)
  next
    case False
    with s show ?thesis by (simp add: bc2_def)
  qed
qed

lemma bc2_scalar_left: "bc2 op [[c]] M = Inr (map (map (op c)) M)"
proof -
  have s: "sequenceE (map (bc1 op [c]) M) = Inr (map (map (op c)) M)"
    by (rule sequenceE_map) (simp add: bc1_single_left)
  show ?thesis
  proof (cases "length M = 1")
    case True
    then obtain r where "M = [r]" by (cases M) auto
    then show ?thesis by (simp add: bc2_def bc1_single_left)
  next
    case False
    with s show ?thesis by (simp add: bc2_def)
  qed
qed

lemma sum2_column: "sum2 (column v) = sum_list v"
  by (simp add: sum2_def column_def comp_def)

text \<open>What \<^verbatim>\<open>get_u_violations\<close> computes on a control sequence of one column.\<close>

lemma get_u_violations_value:
  assumes "mpc_u_ub self = [[cu]]" "mpc_u_lb self = [[cl]]"
  shows "get_u_violations self (column u) = Inr (\<Sum>v\<leftarrow>u. relu (v - cu) + relu (cl - v))"
proof -
  have "bc2 (+) (relu2 (map (map (\<lambda>z. z - cu)) (column u))) (relu2 (map (map ((-) cl)) (column u)))
      = bc2 (+) (column (map (\<lambda>v. relu (v - cu)) u)) (column (map (\<lambda>v. relu (cl - v)) u))"
    by (simp add: relu2_def column_def comp_def)
  also have "\<dots> = Inr (column (map2 (+) (map (\<lambda>v. relu (v - cu)) u) (map (\<lambda>v. relu (cl - v)) u)))"
    by (rule bc2_columns) simp
  finally have "get_u_violations self (column u) =
      Inr (sum_list (map2 (+) (map (\<lambda>v. relu (v - cu)) u) (map (\<lambda>v. relu (cl - v)) u)))"
    by (simp add: get_u_violations_def assms bc2_scalar_right bc2_scalar_left sum2_column)
  moreover have "map2 (+) (map (\<lambda>v. relu (v - cu)) u) (map (\<lambda>v. relu (cl - v)) u)
      = map (\<lambda>v. relu (v - cu) + relu (cl - v)) u"
    by (induction u) simp_all
  ultimately show ?thesis by simp
qed

text \<open>
  What the last lines of \<^verbatim>\<open>loss_mpc\<close> compute: the two scalar penalties are counted
  once for every row of the control sequence.
\<close>

lemma objective_value:
  assumes "length price = length u"
  shows "objective self (column price) (column u) T_vios u_vios =
     Inr (\<Sum>(p, v)\<leftarrow>zip price u. p * \<bar>v\<bar> * Fin (mpc_dt self) / 3600 + T_vios + u_vios)"
proof -
  have "map (map abs) (column u) = column (map abs u)" by (simp add: column_def)
  then have "bc2 (*) (column price) (map (map abs) (column u)) = Inr (column (map2 (*) price (map abs u)))"
    using assms by (simp add: bc2_columns)
  then have "objective self (column price) (column u) T_vios u_vios =
     Inr (\<Sum>w\<leftarrow>map2 (*) price (map abs u). w * Fin (mpc_dt self) / 3600 + T_vios + u_vios)"
    by (simp add: objective_def sum2_def column_def comp_def)
  moreover have "map (\<lambda>w. w * Fin (mpc_dt self) / 3600 + T_vios + u_vios) (map2 (*) price (map abs u)) =
     map (\<lambda>(p, v). p * \<bar>v\<bar> * Fin (mpc_dt self) / 3600 + T_vios + u_vios) (zip price u)"
    using assms by (induction price u rule: list_induct2) simp_all
  ultimately show ?thesis by simp
qed

text \<open>What \<^verbatim>\<open>loss_mpc\<close> computes on arrays of one column.\<close>

lemma loss_mpc_value:
  assumes tm: "mpc_time self = Some tm"
    and ub: "mpc_u_ub self = [[cu]]" and lb: "mpc_u_lb self = [[cl]]"
    and lp: "length price = length u"
    and d': "concat1 (map (take 2) disturbance) (column u) (map (drop 3) disturbance) = Inr d'"
    and abcd: "(case mpc_predictor self of (Cai, Cwe, Cwi, Re', Ri, Rw, Rg) \<Rightarrow>
                 get_ABCD Cai Cwe Cwi Re' Ri Rw Rg) = (A, B, C, D)"
    and fw: "forward f ts te dt state (mpc_ode_solver self) (A, B, d') = Some (Inr (t_all, xs))"
    and ne: "\<not> list_ex (\<lambda>r. r = []) xs"
  shows "loss_mpc self (column u) state ts te dt disturbance (column T_ub) (column T_lb) (column price) =
     Some (Inr (\<Sum>(p, v)\<leftarrow>zip price u. p * \<bar>v\<bar> * Fin (mpc_dt self) / 3600 +
         ((\<Sum>b\<leftarrow>T_ub. \<Sum>z\<leftarrow>map hd xs. relu (z - b)) + (\<Sum>b\<leftarrow>T_lb. \<Sum>z\<leftarrow>map hd xs. relu (b - z))) +
         (\<Sum>v\<leftarrow>u. relu (v - cu) + relu (cl - v))))"
proof -
  have T: "get_T_violations self state ts te dt d' (column T_ub) (column T_lb) =
      Some (Inr ((\<Sum>b\<leftarrow>T_ub. \<Sum>z\<leftarrow>map hd xs. relu (z - b)) + (\<Sum>b\<leftarrow>T_lb. \<Sum>z\<leftarrow>map hd xs. relu (b - z))))"
    using abcd fw by (simp add: get_T_violations_def tm T_violations_all_pairs[OF ne] split: prod.splits)
  show ?thesis
    by (simp add: loss_mpc_def d' T get_u_violations_value[OF ub lb] objective_value[OF lp])
qed

subsection \<open>The step returns\<close>

text \<open>The simulation returns on every horizon that \<^verbatim>\<open>MPC.step\<close> asks for.\<close>

lemma forward_returns:
  assumes "0 < dt \<or> te \<le> ts"
  shows "\<exists>r. forward func ts te dt x0 solver (A, B, d) = Some r"
proof -
  have loop: "\<exists>r. forward_loop func solver A B d te dt
       \<lparr>fw_tprev = ts, fw_tnext = ts + dt, fw_x = x0, fw_args = a, fw_state = st, fw_i = 0,
        fw_t_all = [ts], fw_x_all = [x0]\<rparr> = Some r" for a st
  proof (cases "0 < dt")
    case True
    from steps_bound[OF True, of te ts] obtain k where "te - ts \<le> real k * dt" by blast
    then show ?thesis by (intro forward_loop_terminates[OF True, of te _ k]) simp_all
  next
    case False
    with assms have "te \<le> ts" by simp
    then show ?thesis by (simp add: forward_loop_done)
  qed
  show ?thesis
  proof (cases "jnp_row d 0")
    case (Inl e)
    then show ?thesis by (simp add: forward_def forward_run_def)
  next
    case (Inr dprev)
    show ?thesis
    proof (cases "solver_init solver func ts (ts + dt) x0 (A, B, dprev)")
      case (Inl e)
      with Inr show ?thesis by (simp add: forward_def forward_run_def)
    next
      case (Inr st)
      from loop[of "(A, B, dprev)" st] obtain r where
        "forward_loop func solver A B d te dt
           \<lparr>fw_tprev = ts, fw_tnext = ts + dt, fw_x = x0, fw_args = (A, B, dprev), fw_state = st,
            fw_i = 0, fw_t_all = [ts], fw_x_all = [x0]\<rparr> = Some r" by blast
      with Inr \<open>jnp_row d 0 = Inr dprev\<close> show ?thesis
        by (cases r) (simp_all add: forward_def forward_run_def)
    qed
  qed
qed

lemma bindC_returns:
  "(\<exists>r. m = Some r) \<Longrightarrow> (\<And>v. \<exists>r. k v = Some r) \<Longrightarrow> \<exists>r. bindC m k = Some r"
  by (auto simp: bindC_def split: option.splits sum.splits)

lemma loss_mpc_returns:
  assumes "0 < dt \<or> te \<le> ts"
  shows "\<exists>r. loss_mpc self u state ts te dt disturbance T_ub T_lb price = Some r"
proof -
  have T: "\<exists>r. get_T_violations self state ts te dt d' T_ub T_lb = Some r" for d'
  proof (cases "mpc_time self")
    case None
    then show ?thesis by (simp add: get_T_violations_def)
  next
    case (Some tm)
    obtain Cai Cwe Cwi Re' Ri Rw Rg where p: "mpc_predictor self = (Cai, Cwe, Cwi, Re', Ri, Rw, Rg)"
      by (cases "mpc_predictor self") auto
    obtain A B C D where g: "get_ABCD Cai Cwe Cwi Re' Ri Rw Rg = (A, B, C, D)"
      by (cases "get_ABCD Cai Cwe Cwi Re' Ri Rw Rg") auto
    from forward_returns[OF assms, of f state "mpc_ode_solver self" A B d']
    show ?thesis
      by (auto simp: get_T_violations_def Some p g bindC_def split: sum.splits)
  qed
  show ?thesis
    unfolding loss_mpc_def
    by (intro bindC_returns T) simp_all
qed

lemma step_cost_returns: "\<exists>r. step_cost self d u = Some r"
proof -
  have h: "0 < mpc_dt self \<or> ts + real (mpc_PH self) * mpc_dt self \<le> ts" for ts
  proof (cases "0 < mpc_dt self")
    case False
    then have "real (mpc_PH self) * mpc_dt self \<le> 0" by (intro mult_nonneg_nonpos) simp_all
    then show ?thesis by simp
  qed simp
  show ?thesis
    unfolding step_cost_def Let_def
    by (auto split: option.splits intro!: bindC_returns loss_mpc_returns h)
qed

lemma step_body_returns:
  assumes "\<And>u. \<exists>r. L u = Some r"
  shows "\<exists>r. step_body grad optimizer L s = Some r"
proof -
  from assms obtain r where r: "L (ls_params s) = Some r" by blast
  obtain z os where ou: "opt_update optimizer (grad L (ls_params s)) (ls_opt_state s) (ls_params s) = (z, os)"
    by (cases "opt_update optimizer (grad L (ls_params s)) (ls_opt_state s) (ls_params s)")
  show ?thesis
    by (cases r; cases "apply_updates (ls_params s) z")
       (simp_all add: step_body_def value_and_grad_def Let_def r ou)
qed

lemma step_loop_returns:
  "(\<And>u. \<exists>r. L u = Some r) \<Longrightarrow> \<exists>r. step_loop grad optimizer L s = Some r"
proof (induction grad optimizer L s rule: step_loop.induct)
  case (1 grad optimizer L s)
  show ?case
  proof (cases "ls_epoch s < n_epochs \<and> tolerance < ls_loss s")
    case False
    then show ?thesis by (simp add: step_loop_done)
  next
    case True
    from step_body_returns[of L grad optimizer s] "1.prems" obtain r where
      r: "step_body grad optimizer L s = Some r" by blast
    show ?thesis
    proof (cases r)
      case (Inl e)
      with r True show ?thesis by (simp add: step_loop_more)
    next
      case (Inr s')
      from "1.IH"[OF True r Inr "1.prems"] r Inr True show ?thesis by (simp add: step_loop_more)
    qed
  qed
qed

lemma step_run_returns: "\<exists>r. step_run grad adamw self d = Some r"
proof (cases "step_ready self")
  case True
  then show ?thesis
    unfolding step_run_ready[OF True] by (intro step_loop_returns step_cost_returns)
next
  case False
  from step_run_not_ready[OF this] show ?thesis by blast
qed

subsection \<open>The step and the closed loop\<close>

lemma step_cost_rows:
  "step_cost self d u = Some (Inr v) \<Longrightarrow> length u = length d"
  by (auto simp: step_cost_def loss_mpc_def concat1_def bindC_def Let_def
           split: option.splits sum.splits if_splits)

lemma step_returns_rows:
  assumes "fst (step grad adamw self d) = Some (Inr u_ph)"
  shows "length u_ph = length d"
proof -
  from assms obtain s' where run: "step_run grad adamw self d = Some (Inr s')"
    and u: "ls_u_ph s' = Some u_ph"
    by (auto simp: step_result bindC_def split: option.splits sum.splits)
  from step_run_Inr(2)[OF run] obtain N where N: "1 \<le> N"
    "step_iter grad (adamw (1 / 100)) (step_cost self d) N (step_init adamw self) = Some (Inr s')"
    by blast
  from N(1) obtain j where "N = Suc j" by (cases N) auto
  with step_iter_last[of grad "adamw (1 / 100)" "step_cost self d" j "step_init adamw self" s'] N(2)
  obtain sp where b: "step_body grad (adamw (1 / 100)) (step_cost self d) sp = Some (Inr s')" by blast
  from step_body_Inr(2,3)[OF b] u have "step_cost self d u_ph = Some (Inr (ls_loss s'))" by simp
  then show ?thesis by (rule step_cost_rows)
qed

lemma step_controller: "snd (step grad adamw self d) = self"
  by (simp add: step_eq)

lemma closed_loop_body_Inr:
  assumes "closed_loop_body grad adamw A B dt mpc state t dists = Some (Inr (mpc', state', u_ch))"
  shows "\<exists>u_ph d0 ts xs.
     step grad adamw (set_state (set_time mpc t) state) dists =
       (Some (Inr u_ph), set_state (set_time mpc t) state) \<and>
     set_u_start_from_last_step (set_state (set_time mpc t) state) u_ph = Inr mpc' \<and>
     u_ph \<noteq> [] \<and> hd u_ph \<noteq> [] \<and> u_ch = hd (hd u_ph) \<and>
     jnp_row dists 0 = Inr d0 \<and>
     forward f t (t + dt) dt state Euler (A, B, at_set [d0] 0 2 u_ch) = Some (Inr (ts, xs)) \<and>
     state' = last xs"
proof -
  let ?c = "set_state (set_time mpc t) state"
  obtain r c' where st: "step grad adamw ?c dists = (r, c')" by (cases "step grad adamw ?c dists")
  then have c': "c' = ?c" using step_controller[of grad adamw ?c dists] by simp
  from assms st obtain u_ph where r: "r = Some (Inr u_ph)"
    by (auto simp: closed_loop_body_def Let_def bindC_def split: option.splits sum.splits)
  from assms st r c' obtain m where m: "set_u_start_from_last_step ?c u_ph = Inr m"
    by (auto simp: closed_loop_body_def Let_def bindC_def split: option.splits sum.splits)
  from assms st r c' m obtain uc where uc: "bindE (jnp_row u_ph 0) (\<lambda>u_ph0. jnp_at u_ph0 0) = Inr uc"
    by (auto simp: closed_loop_body_def Let_def bindC_def split: option.splits sum.splits)
  from assms st r c' m uc obtain d0 where d0: "jnp_row dists 0 = Inr d0"
    by (auto simp: closed_loop_body_def Let_def bindC_def split: option.splits sum.splits)
  from assms st r c' m uc d0 obtain ts xs where
    fw: "forward f t (t + dt) dt state Euler (A, B, at_set [d0] 0 2 uc) = Some (Inr (ts, xs))"
    and res: "mpc' = m" "state' = last xs" "u_ch = uc"
    by (auto simp: closed_loop_body_def Let_def bindC_def split: option.splits sum.splits prod.splits)
  from uc have ne: "u_ph \<noteq> []" "hd u_ph \<noteq> []" "uc = hd (hd u_ph)"
    by (auto simp: jnp_row_def jnp_at_def bindE_def hd_conv_nth split: if_splits sum.splits)
  show ?thesis using st r c' m d0 fw res ne by auto
qed

lemma set_u_start_shift:
  assumes nu: "mpc_NU self = 1" and ub: "mpc_u_ub self = [[ub]]"
    and col: "list_all (\<lambda>r. length r = 1) u_prev"
  shows "set_u_start_from_last_step self u_prev = Inr (self\<lparr>mpc_u_start := tl u_prev @ [[ub]]\<rparr>)"
proof -
  have "concat0_from 1 u_prev [[ub]] = Inr (tl u_prev @ [[ub]])"
    using col by (simp add: concat0_from_def drop_Suc list_all_iff)
  then show ?thesis by (simp add: set_u_start_from_last_step_def nu ub)
qed

text \<open>A step whose cost at the warm start is within the tolerance returns the warm start.\<close>

lemma step_one_pass:
  assumes r: "step_ready c"
    and v: "step_cost c d (mpc_u_start c) = Some (Inr v)" and tol: "v \<le> tolerance"
    and up: "apply_updates (mpc_u_start c)
               (fst (opt_update (adamw (1 / 100)) (grad (step_cost c d) (mpc_u_start c))
                      (opt_init (adamw (1 / 100)) (mpc_u_start c)) (mpc_u_start c))) = Inr p"
  shows "fst (step grad adamw c d) = Some (Inr (mpc_u_start c))"
proof -
  obtain z os where ou: "opt_update (adamw (1 / 100)) (grad (step_cost c d) (mpc_u_start c))
                      (opt_init (adamw (1 / 100)) (mpc_u_start c)) (mpc_u_start c) = (z, os)"
    by (cases "opt_update (adamw (1 / 100)) (grad (step_cost c d) (mpc_u_start c))
                      (opt_init (adamw (1 / 100)) (mpc_u_start c)) (mpc_u_start c)")
  let ?s1 = "\<lparr>ls_epoch = 1, ls_loss = v, ls_params = p, ls_opt_state = os,
     ls_u_ph = Some (mpc_u_start c)\<rparr>"
  have b: "step_body grad (adamw (1 / 100)) (step_cost c d) (step_init adamw c) = Some (Inr ?s1)"
    using v up ou by (simp add: step_body_def value_and_grad_def step_init_def)
  have "step_loop grad (adamw (1 / 100)) (step_cost c d) ?s1 = Some (Inr ?s1)"
    using tol by (simp add: step_loop_done not_above_tolerance)
  with b have "step_run grad adamw c d = Some (Inr ?s1)"
    by (simp add: step_run_first_pass[OF r])
  then show ?thesis by (simp add: step_result)
qed

lemma example_step:
  "step_ready ((set_state (set_time ex_mpc 0) [24, 24, 24])\<lparr>mpc_u_start := [[- 1], [- 2], [0]]\<rparr>)"
  "fst (step ex_grad ex_adamw
     ((set_state (set_time ex_mpc 0) [24, 24, 24])\<lparr>mpc_u_start := [[- 1], [- 2], [0]]\<rparr>)
     ex_dist) = Some (Inr [[- 1], [- 2], [0]])"
proof -
  define c where "c = (set_state (set_time ex_mpc 0) [24, 24, 24])\<lparr>mpc_u_start := [[- 1], [- 2], [0]]\<rparr>"
  define d where "d = ex_dist"
  have r: "step_ready c"
    by (simp add: c_def step_ready_def mpc_eval)
  have u0: "mpc_u_start c = [[- 1], [- 2], [0]]" by (simp add: c_def)
  have c0: "step_cost c d [[- 1], [- 2], [0]] = Some (Inr 0)"
    by (simp add: c_def d_def cost_eval mpc_eval array_eval forward_eval eval_nat_numeral)
  have "fst (step ex_grad ex_adamw c d) = Some (Inr (mpc_u_start c))"
  proof (rule step_one_pass[OF r, where v = 0 and p = "[[- 1 - 1 / 100], [- 2 - 1 / 100], [- (1 / 100)]]"])
    show "step_cost c d (mpc_u_start c) = Some (Inr 0)" unfolding u0 by (rule c0)
    show "0 \<le> tolerance" by (simp add: tolerance_def fl_eval)
    show "apply_updates (mpc_u_start c)
       (fst (opt_update (ex_adamw (1 / 100)) (ex_grad (step_cost c d) (mpc_u_start c))
               (opt_init (ex_adamw (1 / 100)) (mpc_u_start c)) (mpc_u_start c))) =
      Inr [[- 1 - 1 / 100], [- 2 - 1 / 100], [- (1 / 100)]]"
      by (simp add: u0 apply_updates_def array_eval)
  qed
  with r show
    "step_ready ((set_state (set_time ex_mpc 0) [24, 24, 24])\<lparr>mpc_u_start := [[- 1], [- 2], [0]]\<rparr>)"
    "fst (step ex_grad ex_adamw
       ((set_state (set_time ex_mpc 0) [24, 24, 24])\<lparr>mpc_u_start := [[- 1], [- 2], [0]]\<rparr>)
       ex_dist) = Some (Inr [[- 1], [- 2], [0]])"
    unfolding c_def d_def u0 by (simp_all add: u0[unfolded c_def])
qed

lemma example_controller:
  "set_state (set_time (ex_mpc\<lparr>mpc_u_start := [[- 1], [- 2], [0]]\<rparr>) 0) [24, 24, 24] =
   (set_state (set_time ex_mpc 0) [24, 24, 24])\<lparr>mpc_u_start := [[- 1], [- 2], [0]]\<rparr>"
  by (simp add: set_state_def set_time_def)

lemma example_closed_loop:
  "closed_loop_body ex_grad ex_adamw ex_A ex_B 1
     (ex_mpc\<lparr>mpc_u_start := [[- 1], [- 2], [0]]\<rparr>) [24, 24, 24] 0 ex_dist =
   Some (Inr ((set_state (set_time ex_mpc 0) [24, 24, 24])\<lparr>mpc_u_start := [[- 2], [0], [0]]\<rparr>,
              [23, 24, 24], - 1))"
proof -
  have st: "step ex_grad ex_adamw
     ((set_state (set_time ex_mpc 0) [24, 24, 24])\<lparr>mpc_u_start := [[- 1], [- 2], [0]]\<rparr>) ex_dist =
     (Some (Inr [[- 1], [- 2], [0]]),
      (set_state (set_time ex_mpc 0) [24, 24, 24])\<lparr>mpc_u_start := [[- 1], [- 2], [0]]\<rparr>)"
    using example_step(2) step_controller by (simp add: prod_eq_iff)
  have su: "set_u_start_from_last_step
      ((set_state (set_time ex_mpc 0) [24, 24, 24])\<lparr>mpc_u_start := [[- 1], [- 2], [0]]\<rparr>)
      [[- 1], [- 2], [0]] =
     Inr ((set_state (set_time ex_mpc 0) [24, 24, 24])\<lparr>mpc_u_start := [[- 2], [0], [0]]\<rparr>)"
    by (simp add: set_u_start_from_last_step_def set_state_def set_time_def MPC_init_u_bounds
        concat0_from_def)
  show ?thesis
    unfolding closed_loop_body_def Let_def example_controller st prod.case bindC_simps su
    by (simp add: array_eval forward_eval at_set_def eval_nat_numeral)
qed

subsection \<open>The two models of the zone\<close>

lemma RCModel_matrices:
  "RCModel_fxx Cai Cwe Cwi Re' Ri Rw Rg = fst (get_ABCD Cai Cwe Cwi Re' Ri Rw Rg)"
  "RCModel_fxu Cai Cwe Cwi Re' Rg = fst (snd (get_ABCD Cai Cwe Cwi Re' Ri Rw Rg))"
  "RCModel_fyx = fst (snd (snd (get_ABCD Cai Cwe Cwi Re' Ri Rw Rg)))"
  "RCModel_fyu = Arr2 [[0, 0, 0, 0, 0]]"
  by (simp_all only: get_ABCD_def RCModel_fxx_def RCModel_fxu_def RCModel_fyx_def
        RCModel_fyu_def Let_def zeros_1_5 fst_conv snd_conv)

subsection \<open>C4: the matrices of the zone model\<close>

text \<open>
  C4, as stated, at the parameters \<open>(1, 1, 1, 1, 1, 1, 1)\<close>: the fourth component that
  \<^verbatim>\<open>get_ABCD\<close> returns is the scalar \<open>0\<close> of the assignment \<^verbatim>\<open>D = 0\<close>, not an array of
  one row and five columns.
\<close>

theorem get_ABCD_D_is_scalar:
  "snd (snd (snd (get_ABCD 1 1 1 1 1 1 1))) = Scalar 0 \<and>
   snd (snd (snd (get_ABCD 1 1 1 1 1 1 1))) \<noteq> Arr2 [[0, 0, 0, 0, 0]]"
  by (simp add: get_ABCD_def Let_def)

text \<open>
  C4, amended: for every seven parameters \<^verbatim>\<open>get_ABCD\<close> returns the 3 by 3 matrix \<open>A\<close> and
  the 3 by 5 matrix \<open>B\<close> with the stated closed-form entries and zeros elsewhere, the 1 by 3
  matrix \<open>C\<close> with \<open>C[0,0] = 1\<close> and zeros elsewhere, and \<open>D\<close> equal to the scalar \<open>0\<close>.
\<close>

theorem get_ABCD_closed_form:
  "get_ABCD Cai Cwe Cwi Re' Ri Rw Rg =
     ([[- (1 / Cai) * (1 / Rg + 1 / Ri), 0, 1 / (Cai * Ri)],
       [0, - (1 / Cwe) * (1 / Re' + 1 / Rw), 1 / (Cwe * Rw)],
       [1 / (Cwi * Ri), 1 / (Cwi * Rw), - (1 / Cwi) * (1 / Rw + 1 / Ri)]],
      [[1 / (Cai * Rg), 1 / Cai, 1 / Cai, 0, 0],
       [1 / (Cwe * Re'), 0, 0, 1 / Cwe, 0],
       [0, 0, 0, 0, 1 / Cwi]],
      [[1, 0, 0]],
      Scalar 0)"
  unfolding get_ABCD_def Let_def zeros_3_3 zeros_3_5 zeros_1_3 at_set_def
  by (simp add: eval_nat_numeral minus_one_divide_fl)

subsection \<open>C9: the read one past the last disturbance row\<close>



subsection \<open>C5: when the loop of the optimisation ends\<close>

text \<open>
  C5, as stated, on a controller with a horizon of two steps and a disturbance horizon
  whose first row holds a NaN: the cost of the first pass is NaN, the test
  \<^verbatim>\<open>loss > tolerance\<close> is false on it, and the loop is left after that one pass, with the
  count at \<open>1\<close>, below the budget, and with a cost that is not at most the tolerance.
  \<^verbatim>\<open>step\<close> raises nothing and returns the control sequence.
\<close>

theorem step_loop_stops_on_NaN_cost:
  "step_ready (set_state (set_time ex_mpc2 0) [24, 24, 24]) \<and>
   step_cost (set_state (set_time ex_mpc2 0) [24, 24, 24])
     [[NaN, 0, 0, 0, 0], [24, 0, 0, 0, 0]] [[0], [0]] = Some (Inr NaN) \<and>
   step_run ex_grad ex_still
     (set_state (set_time ex_mpc2 0) [24, 24, 24])
     [[NaN, 0, 0, 0, 0], [24, 0, 0, 0, 0]] =
     Some (Inr \<lparr>ls_epoch = 1, ls_loss = NaN, ls_params = [[0], [0]],
                ls_opt_state = (), ls_u_ph = Some [[0], [0]]\<rparr>) \<and>
   1 < n_epochs \<and> \<not> NaN \<le> tolerance \<and>
   fst (step ex_grad ex_still
     (set_state (set_time ex_mpc2 0) [24, 24, 24])
     [[NaN, 0, 0, 0, 0], [24, 0, 0, 0, 0]]) = Some (Inr [[0], [0]])"
proof -
  define c where "c = set_state (set_time ex_mpc2 0) [24, 24, 24]"
  define d where "d = [[NaN, 0, 0, 0, 0], [24, 0, 0, 0, 0 :: fl]]"
  define s where "s = \<lparr>ls_epoch = 1, ls_loss = NaN, ls_params = [[0], [0 :: fl]],
                ls_opt_state = (), ls_u_ph = Some [[0], [0 :: fl]]\<rparr>"
  have r: "step_ready c"
    by (simp add: c_def step_ready_def mpc_eval)
  have u0: "mpc_u_start c = [[0], [0]]"
    by (simp add: c_def MPC_init_u_bounds set_state_def set_time_def eval_nat_numeral)
  have c0: "step_cost c d [[0], [0]] = Some (Inr NaN)"
    by (simp add: c_def d_def cost_eval mpc_eval array_eval forward_eval eval_nat_numeral)
  have run: "step_run ex_grad ex_still c d = Some (Inr s)"
    unfolding step_run_first_pass[OF r]
    using c0 u0
    by (simp add: step_body_def value_and_grad_def step_init_def s_def
        apply_updates_def array_eval step_loop_done)
  then have "fst (step ex_grad ex_still c d) = Some (Inr [[0], [0]])"
    by (simp add: step_result s_def)
  with r run c0 show ?thesis
    unfolding c_def d_def s_def by (simp add: n_epochs_def)
qed

text \<open>
  C5, amended: for a controller whose time, state and schedules are set and whose horizon
  has a step, the run of \<^verbatim>\<open>MPC.step\<close> up to the end of its loop always comes to an end; with
  the iterates of the optimisation counted from the variables before the first pass,
  \<^verbatim>\<open>MPC.step\<close> leaves its loop with the variables \<open>s'\<close> exactly when \<open>s'\<close> is the iterate after
  some number \<open>N\<close> of passes, \<open>1 \<le> N \<le> 1000\<close>, such that \<open>N\<close> is the budget \<open>1000\<close>, or the
  cost evaluated in pass \<open>N\<close> is at most the tolerance \<open>1e-06\<close>, or that cost is NaN, while
  the cost evaluated in every earlier pass was above the tolerance. Whenever the loop ends,
  also with the budget used up and the cost still above the tolerance, \<^verbatim>\<open>step\<close> raises
  nothing and returns a control sequence.
\<close>

theorem step_loop_stops_at_budget_or_failed_test:
  assumes "step_ready self"
  shows "n_epochs = 1000 \<and> tolerance = 1 / 1000000 \<and>
    (\<exists>r. step_run grad adamw self d = Some r) \<and>
    (step_run grad adamw self d = Some (Inr s') \<longleftrightarrow>
      (\<exists>N. 1 \<le> N \<and> N \<le> n_epochs \<and>
           step_iter grad (adamw (1 / 100)) (step_cost self d) N (step_init adamw self) = Some (Inr s') \<and>
           (N = n_epochs \<or> ls_loss s' \<le> tolerance \<or> ls_loss s' = NaN) \<and>
           (\<forall>k sk. 1 \<le> k \<and> k < N \<and>
                step_iter grad (adamw (1 / 100)) (step_cost self d) k (step_init adamw self) = Some (Inr sk)
                \<longrightarrow> tolerance < ls_loss sk))) \<and>
    (step_run grad adamw self d = Some (Inr s') \<longrightarrow>
      ls_epoch s' \<le> n_epochs \<and>
      (\<exists>u. ls_u_ph s' = Some u \<and> fst (step grad adamw self d) = Some (Inr u)))"
proof -
  let ?it = "step_iter grad (adamw (1 / 100)) (step_cost self d)"
  let ?s0 = "step_init adamw self"
  let ?R = "\<exists>N. 1 \<le> N \<and> N \<le> n_epochs \<and> ?it N ?s0 = Some (Inr s') \<and>
           (N = n_epochs \<or> ls_loss s' \<le> tolerance \<or> ls_loss s' = NaN) \<and>
           (\<forall>k sk. 1 \<le> k \<and> k < N \<and> ?it k ?s0 = Some (Inr sk) \<longrightarrow> tolerance < ls_loss sk)"
  have fwd: "?R" if run: "step_run grad adamw self d = Some (Inr s')"
  proof -
    from step_run_Inr(2)[OF run] obtain N where N: "1 \<le> N" "N \<le> n_epochs" "?it N ?s0 = Some (Inr s')"
      "N = n_epochs \<or> \<not> tolerance < ls_loss s'"
      "\<forall>k<N. \<exists>sk. ?it k ?s0 = Some (Inr sk) \<and> tolerance < ls_loss sk" by blast
    have "\<forall>k sk. 1 \<le> k \<and> k < N \<and> ?it k ?s0 = Some (Inr sk) \<longrightarrow> tolerance < ls_loss sk"
      using N(5) by fastforce
    moreover have "N = n_epochs \<or> ls_loss s' \<le> tolerance \<or> ls_loss s' = NaN"
      using N(4) by (simp add: not_above_tolerance)
    ultimately show ?thesis using N(1-3) by blast
  qed
  have bwd: "step_run grad adamw self d = Some (Inr s')" if "?R"
  proof -
    from that obtain N where N: "1 \<le> N" "N \<le> n_epochs" "?it N ?s0 = Some (Inr s')"
      "N = n_epochs \<or> ls_loss s' \<le> tolerance \<or> ls_loss s' = NaN"
      "\<forall>k sk. 1 \<le> k \<and> k < N \<and> ?it k ?s0 = Some (Inr sk) \<longrightarrow> tolerance < ls_loss sk" by blast
    have ep: "ls_epoch s' = N" using step_iter_epoch[OF N(3)] by simp
    have "N = n_epochs \<or> \<not> tolerance < ls_loss s'"
      using N(4) by (simp add: not_above_tolerance)
    then have stop: "\<not> (ls_epoch s' < n_epochs \<and> tolerance < ls_loss s')" using ep by auto
    have before: "\<forall>k<N. \<forall>sk. ?it k ?s0 = Some (Inr sk) \<longrightarrow> ls_epoch sk < n_epochs \<and> tolerance < ls_loss sk"
    proof (intro allI impI)
      fix k sk assume k: "k < N" and sk: "?it k ?s0 = Some (Inr sk)"
      have "ls_epoch sk = k" using step_iter_epoch[OF sk] by simp
      moreover have "tolerance < ls_loss sk"
      proof (cases "k = 0")
        case True
        with sk have "sk = ?s0" by simp
        then show ?thesis by (simp add: tolerance_lt_BIG)
      next
        case False
        then have "1 \<le> k" by simp
        with N(5) k sk show ?thesis by blast
      qed
      ultimately show "ls_epoch sk < n_epochs \<and> tolerance < ls_loss sk" using k N(2) by simp
    qed
    from iter_loop[OF N(3) stop before] show ?thesis by (simp add: step_run_ready[OF assms])
  qed
  have ret: "ls_epoch s' \<le> n_epochs \<and> (\<exists>u. ls_u_ph s' = Some u \<and> fst (step grad adamw self d) = Some (Inr u))"
    if run: "step_run grad adamw self d = Some (Inr s')"
  proof -
    from step_run_Inr(2)[OF run] obtain N where N: "1 \<le> N" "N \<le> n_epochs" "ls_epoch s' = N"
      "?it N ?s0 = Some (Inr s')" by blast
    from N(1) obtain j where "N = Suc j" by (cases N) auto
    with step_iter_last[of grad "adamw (1 / 100)" "step_cost self d" j ?s0 s'] N(4)
    obtain sp where "step_body grad (adamw (1 / 100)) (step_cost self d) sp = Some (Inr s')" by blast
    from step_body_Inr(2)[OF this] run N show ?thesis by (simp add: step_result)
  qed
  have "n_epochs = 1000 \<and> tolerance = 1 / 1000000"
    by (simp add: n_epochs_def tolerance_def)
  with fwd bwd ret step_run_returns[of grad adamw self d] show ?thesis by blast
qed

text \<open>
  A run that uses up the budget: an optimizer whose updates are zero leaves the cost at
  \<open>12\<close>, the loop ends after pass \<open>1000\<close>, and \<^verbatim>\<open>step\<close> returns the control sequence.
\<close>

theorem step_loop_stops_at_budget_or_failed_test_witness:
  "step_ready (set_state (set_time ex_mpc2 28800) [27, 27, 27]) \<and>
   step_cost (set_state (set_time ex_mpc2 28800) [27, 27, 27])
     [[27, 0, 0, 0, 0], [27, 0, 0, 0, 0]] [[0], [0]] = Some (Inr 12) \<and>
   tolerance < 12 \<and>
   step_run ex_grad ex_still
     (set_state (set_time ex_mpc2 28800) [27, 27, 27])
     [[27, 0, 0, 0, 0], [27, 0, 0, 0, 0]] =
     Some (Inr \<lparr>ls_epoch = 1000, ls_loss = 12, ls_params = [[0], [0]],
                ls_opt_state = (), ls_u_ph = Some [[0], [0]]\<rparr>) \<and>
   fst (step ex_grad ex_still
     (set_state (set_time ex_mpc2 28800) [27, 27, 27])
     [[27, 0, 0, 0, 0], [27, 0, 0, 0, 0]]) = Some (Inr [[0], [0]])"
proof -
  define c where "c = set_state (set_time ex_mpc2 28800) [27, 27, 27]"
  define d where "d = [[27, 0, 0, 0, 0], [27, 0, 0, 0, 0 :: fl]]"
  define g where "g = (\<lambda>(L :: mat \<Rightarrow> fl comp) (p :: mat). p)"
  define opt where "opt = (\<lambda>lr :: fl. \<lparr>opt_init = (\<lambda>p :: mat. ()),
     opt_update = (\<lambda>(g :: mat) (os :: unit) (p :: mat). (map (map (\<lambda>v. 0 :: fl)) p, ()))\<rparr>)"
  define s where "s = \<lparr>ls_epoch = 1000, ls_loss = 12, ls_params = [[0], [0 :: fl]],
                ls_opt_state = (), ls_u_ph = Some [[0], [0 :: fl]]\<rparr>"
  have r: "step_ready c"
    by (simp add: c_def step_ready_def mpc_eval)
  have u0: "mpc_u_start c = [[0], [0]]"
    by (simp add: c_def MPC_init_u_bounds set_state_def set_time_def eval_nat_numeral)
  have c0: "step_cost c d [[0], [0]] = Some (Inr 12)"
    by (simp add: c_def d_def cost_eval mpc_eval array_eval forward_eval eval_nat_numeral)
  have tol: "tolerance < 12"
    by (simp add: tolerance_def fl_eval)
  have s0: "step_init opt c = \<lparr>ls_epoch = 0, ls_loss = BIG_NUMBER, ls_params = [[0], [0]],
      ls_opt_state = (), ls_u_ph = None\<rparr>"
    by (simp add: step_init_def u0 opt_def)
  have up: "apply_updates [[0], [0]] [[0], [0]] = Inr [[0], [0]]"
    by (simp add: apply_updates_def array_eval)
  have it: "step_iter g (opt (1 / 100)) (step_cost c d) (Suc k) (step_init opt c) =
      Some (Inr \<lparr>ls_epoch = Suc k, ls_loss = 12, ls_params = [[0], [0]],
                 ls_opt_state = (), ls_u_ph = Some [[0], [0]]\<rparr>)" for k
    unfolding s0
    using step_iter_stationary[of "step_cost c d" "[[0], [0]]" 12 "opt (1 / 100)" g "()" "[[0], [0]]" k 0
        BIG_NUMBER None, OF c0] up
    by (simp add: opt_def)
  have it1000: "step_iter g (opt (1 / 100)) (step_cost c d) 1000 (step_init opt c) = Some (Inr s)"
    using it[of 999] by (simp add: s_def)
  have before: "\<forall>k sk. 1 \<le> k \<and> k < 1000 \<and>
      step_iter g (opt (1 / 100)) (step_cost c d) k (step_init opt c) = Some (Inr sk)
      \<longrightarrow> tolerance < ls_loss sk"
  proof (intro allI impI)
    fix k sk
    assume a: "1 \<le> k \<and> k < 1000 \<and>
      step_iter g (opt (1 / 100)) (step_cost c d) k (step_init opt c) = Some (Inr sk)"
    then obtain j where "k = Suc j" by (cases k) auto
    with a it[of j] tol show "tolerance < ls_loss sk" by auto
  qed
  have run: "step_run g opt c d = Some (Inr s)"
    using step_loop_stops_at_budget_or_failed_test[OF r, of g opt d s] it1000 before
    by (auto simp: n_epochs_def)
  then have "fst (step g opt c d) = Some (Inr [[0], [0]])"
    using step_loop_stops_at_budget_or_failed_test[OF r, of g opt d s]
    by (auto simp: s_def)
  with r run c0 tol show ?thesis
    unfolding c_def d_def g_def opt_def s_def by simp
qed

subsection \<open>C10: what the step returns\<close>

text \<open>
  C10: the initial loss \<open>1e6\<close> is above the tolerance, so a controller whose time, state
  and schedules are set and whose horizon has a step always makes a first pass through the
  body of the loop. When the
  loop ends with the variables \<open>s'\<close>, at least one pass was made, and \<^verbatim>\<open>step\<close> returns the
  parameters \<open>u\<close> as they stood at the start of the last pass: the loss evaluated last is
  the cost of \<open>u\<close>, and the parameters that the update of the last pass made from \<open>u\<close> are
  left in the loop's variables and not returned.
\<close>

theorem step_returns_iterate_of_last_loss:
  assumes "step_ready self"
  shows "tolerance < BIG_NUMBER \<and>
    step_run grad adamw self d =
      bindC (step_body grad (adamw (1 / 100)) (step_cost self d) (step_init adamw self))
        (step_loop grad (adamw (1 / 100)) (step_cost self d)) \<and>
    (step_run grad adamw self d = Some (Inr s') \<longrightarrow>
       1 \<le> ls_epoch s' \<and>
       (\<exists>sp. step_iter grad (adamw (1 / 100)) (step_cost self d) (ls_epoch s' - 1)
               (step_init adamw self) = Some (Inr sp) \<and>
             step_body grad (adamw (1 / 100)) (step_cost self d) sp = Some (Inr s') \<and>
             fst (step grad adamw self d) = Some (Inr (ls_params sp)) \<and>
             step_cost self d (ls_params sp) = Some (Inr (ls_loss s')) \<and>
             apply_updates (ls_params sp)
               (fst (opt_update (adamw (1 / 100)) (grad (step_cost self d) (ls_params sp))
                      (ls_opt_state sp) (ls_params sp))) = Inr (ls_params s')))"
proof -
  let ?it = "step_iter grad (adamw (1 / 100)) (step_cost self d)"
  let ?s0 = "step_init adamw self"
  have "1 \<le> ls_epoch s' \<and>
       (\<exists>sp. ?it (ls_epoch s' - 1) ?s0 = Some (Inr sp) \<and>
             step_body grad (adamw (1 / 100)) (step_cost self d) sp = Some (Inr s') \<and>
             fst (step grad adamw self d) = Some (Inr (ls_params sp)) \<and>
             step_cost self d (ls_params sp) = Some (Inr (ls_loss s')) \<and>
             apply_updates (ls_params sp)
               (fst (opt_update (adamw (1 / 100)) (grad (step_cost self d) (ls_params sp))
                      (ls_opt_state sp) (ls_params sp))) = Inr (ls_params s'))"
    if run: "step_run grad adamw self d = Some (Inr s')"
  proof -
    from step_run_Inr(2)[OF run] obtain N where N: "1 \<le> N" "ls_epoch s' = N"
      "?it N ?s0 = Some (Inr s')" by blast
    from N(1) obtain j where j: "N = Suc j" by (cases N) auto
    with step_iter_last[of grad "adamw (1 / 100)" "step_cost self d" j ?s0 s'] N(3)
    obtain sp where sp: "?it j ?s0 = Some (Inr sp)"
      and b: "step_body grad (adamw (1 / 100)) (step_cost self d) sp = Some (Inr s')" by blast
    from step_body_Inr(2-4)[OF b] sp b run N j show ?thesis by (simp add: step_result)
  qed
  then show ?thesis using step_run_first_pass[OF assms] tolerance_lt_BIG by blast
qed

text \<open>
  A run with an optimizer that moves every entry by the learning rate: the cost is \<open>0\<close> at
  the start, one pass is made, the parameters end at \<open>-0.01\<close> and \<^verbatim>\<open>step\<close> returns zeros.
\<close>

theorem step_returns_iterate_of_last_loss_witness:
  "step_ready (set_state (set_time ex_mpc2 0) [24, 24, 24]) \<and>
   step_run ex_grad ex_adamw
     (set_state (set_time ex_mpc2 0) [24, 24, 24])
     [[24, 0, 0, 0, 0], [24, 0, 0, 0, 0]] =
     Some (Inr \<lparr>ls_epoch = 1, ls_loss = 0, ls_params = [[- (1 / 100)], [- (1 / 100)]],
                ls_opt_state = (), ls_u_ph = Some [[0], [0]]\<rparr>) \<and>
   fst (step ex_grad ex_adamw
     (set_state (set_time ex_mpc2 0) [24, 24, 24])
     [[24, 0, 0, 0, 0], [24, 0, 0, 0, 0]]) = Some (Inr [[0], [0]]) \<and>
   step_cost (set_state (set_time ex_mpc2 0) [24, 24, 24])
     [[24, 0, 0, 0, 0], [24, 0, 0, 0, 0]] [[0], [0]] = Some (Inr 0)"
proof -
  define c where "c = set_state (set_time ex_mpc2 0) [24, 24, 24]"
  define d where "d = [[24, 0, 0, 0, 0], [24, 0, 0, 0, 0 :: fl]]"
  define g where "g = (\<lambda>(L :: mat \<Rightarrow> fl comp) (p :: mat). p)"
  define opt where "opt = (\<lambda>lr :: fl. \<lparr>opt_init = (\<lambda>p :: mat. ()),
     opt_update = (\<lambda>(g :: mat) (os :: unit) (p :: mat). (map (map (\<lambda>v. - lr)) p, ()))\<rparr>)"
  define s where "s = \<lparr>ls_epoch = 1, ls_loss = 0, ls_params = [[- (1 / 100)], [- (1 / 100 :: fl)]],
                ls_opt_state = (), ls_u_ph = Some [[0], [0 :: fl]]\<rparr>"
  have r: "step_ready c"
    by (simp add: c_def step_ready_def mpc_eval)
  have u0: "mpc_u_start c = [[0], [0]]"
    by (simp add: c_def MPC_init_u_bounds set_state_def set_time_def eval_nat_numeral)
  have c0: "step_cost c d [[0], [0]] = Some (Inr 0)"
    by (simp add: c_def d_def cost_eval mpc_eval array_eval forward_eval eval_nat_numeral)
  have run: "step_run g opt c d = Some (Inr s)"
    unfolding step_run_first_pass[OF r]
    using c0 u0
    by (simp add: step_body_def value_and_grad_def step_init_def opt_def s_def
        apply_updates_def array_eval step_loop_done tolerance_def)
  from step_returns_iterate_of_last_loss[OF r, of g opt d s] run
  obtain sp where "fst (step g opt c d) = Some (Inr (ls_params sp))"
    "step_iter g (opt (1 / 100)) (step_cost c d) (ls_epoch s - 1) (step_init opt c) = Some (Inr sp)"
    by auto
  then have "fst (step g opt c d) = Some (Inr [[0], [0]])"
    by (auto simp: s_def u0)
  with r run c0 show ?thesis
    unfolding c_def d_def g_def opt_def s_def by simp
qed


subsection \<open>C1: the cost against its stated formula\<close>

text \<open>
  C1 claims that the cost of \<^verbatim>\<open>loss_mpc\<close> is the stated sum, each step's zone temperature
  being compared with the bounds of that same step. The code at a horizon of two steps
  from eight o'clock, whose three trajectory samples are all \<open>27\<close>, with the bounds \<open>22\<close> and
  \<open>26\<close> at both steps and a zero control sequence, the arguments being those that
  \<^verbatim>\<open>MPC.step\<close> passes: \<^verbatim>\<open>loss_mpc\<close> returns \<open>12\<close>, the stated sum is \<open>2\<close>. The array
  \<open>Tz_ph\<close> of shape \<open>(3,)\<close> and the bound array of shape \<open>(2, 1)\<close> broadcast to shape \<open>(2, 3)\<close>,
  so that every sample meets every bound (\<open>6\<close> instead of \<open>2\<close>), and the scalar penalties
  are added to each of the two rows of the price term before the sum (\<open>12\<close>).
\<close>

theorem loss_mpc_differs_from_stated_cost:
  "loss_mpc (set_time ex_mpc2 28800)
     [[0], [0]] [27, 27, 27] 28800 28802 1 [[27, 0, 0, 0, 0], [27, 0, 0, 0, 0]]
     [[26], [26]] [[22], [22]] [[1], [1]] = Some (Inr 12) \<and>
   step_cost (set_state (set_time ex_mpc2 28800) [27, 27, 27])
     [[27, 0, 0, 0, 0], [27, 0, 0, 0, 0]] [[0], [0]] = Some (Inr 12) \<and>
   forward f 28800 28802 1 [27, 27, 27] Euler
     (ex_A,
      ex_B,
      [[27, 0, 0, 0, 0], [27, 0, 0, 0, 0]]) =
     Some (Inr ([28800, 28802, 28802], [[27, 27, 27], [27, 27, 27], [27, 27, 27]])) \<and>
   spec_cost [[0], [0]] [[27, 27, 27], [27, 27, 27], [27, 27, 27]] [1, 1] [26, 26] [22, 22] 1 (- 10) 0 = 2"
  by (simp add: cost_eval mpc_eval array_eval forward_eval spec_cost_def eval_nat_numeral)

subsection \<open>C2: one sample above its upper bound\<close>

text \<open>
  C2 claims that raising one sample of the zone temperature to \<open>\<Delta>\<close> above its upper
  bound, the trajectory being otherwise strictly inside the bounds, raises the cost by
  \<open>\<Delta>\<close>. The code at a horizon of two steps with the bounds \<open>22\<close> and \<open>26\<close>: with the samples
  \<open>24, 24, 24\<close> the cost is \<open>0\<close>; with the samples \<open>24, 27, 24\<close>, the second \<open>1\<close> above
  its bound, the cost is \<open>4\<close>, not \<open>1\<close>. The temperature penalty of that trajectory is \<open>2\<close>,
  the sample meeting both rows of the bound array, and it is \<open>8\<close> with the sample at \<open>30\<close>;
  the hinge itself gives \<open>1\<close> and \<open>4\<close>.
\<close>

theorem loss_mpc_sample_above_bound_costs_more:
  "loss_mpc (set_time ex_mpc2 28800)
     [[0], [0]] [24, 24, 24] 28800 28802 1 [[24, 0, 0, 0, 0], [24, 0, 0, 0, 0]]
     [[26], [26]] [[22], [22]] [[1], [1]] = Some (Inr 0) \<and>
   forward f 28800 28802 1 [24, 24, 24] Euler
     (ex_A,
      ex_B,
      [[24, 0, 0, 0, 0], [24, 0, 0, 0, 0]]) =
     Some (Inr ([28800, 28802, 28802], [[24, 24, 24], [24, 24, 24], [24, 24, 24]])) \<and>
   loss_mpc (set_time ex_mpc2 28800)
     [[0], [0]] [24, 24, 24] 28800 28802 1 [[24, 3, 0, 0, 0], [24, 3, 0, 0, 0]]
     [[26], [26]] [[22], [22]] [[1], [1]] = Some (Inr 4) \<and>
   forward f 28800 28802 1 [24, 24, 24] Euler
     (ex_A,
      ex_B,
      [[24, 3, 0, 0, 0], [24, 3, 0, 0, 0]]) =
     Some (Inr ([28800, 28802, 28802], [[24, 24, 24], [27, 24, 24], [24, 24, 27]])) \<and>
   T_violations [[24, 24, 24], [27, 24, 24], [24, 24, 27]] [[26], [26]] [[22], [22]] = Inr 2 \<and>
   T_violations [[24, 24, 24], [30, 24, 24], [24, 24, 27]] [[26], [26]] [[22], [22]] = Inr 8 \<and>
   relu (27 - 26) = 1 \<and> relu (30 - 26) = 4"
  by (simp add: cost_eval mpc_eval array_eval forward_eval eval_nat_numeral)

subsection \<open>C3: what the step hands to its caller\<close>

text \<open>
  C3, as stated, on a controller with a horizon of three steps whose warm start is
  \<open>-1, -2, 0\<close> and whose cost there is zero: \<^verbatim>\<open>step\<close> returns the whole sequence of three
  rows, not the single action \<open>-1\<close>.
\<close>

theorem step_returns_sequence_not_scalar:
  "mpc_PH ((set_state (set_time ex_mpc 0) [24, 24, 24])\<lparr>mpc_u_start := [[- 1], [- 2], [0]]\<rparr>) = 3 \<and>
   fst (step ex_grad ex_adamw
     ((set_state (set_time ex_mpc 0) [24, 24, 24])\<lparr>mpc_u_start := [[- 1], [- 2], [0]]\<rparr>)
     ex_dist) = Some (Inr [[- 1], [- 2], [0]]) \<and>
   length [[- 1], [- 2], [0 :: fl]] = 3"
  using example_step(2) by (simp add: mpc_eval)

text \<open>
  C3, amended: in a pass of the main loop that raises nothing, \<^verbatim>\<open>MPC.step(disturbance)\<close>,
  the time and the state being set beforehand with \<^verbatim>\<open>set_time\<close> and \<^verbatim>\<open>set_state\<close>, returns to
  its caller a whole control sequence \<open>u_ph\<close>, an array that has one row for each row of the
  disturbance horizon handed to \<^verbatim>\<open>step\<close> and a first row with an entry. It is the caller,
  the main loop, that takes the first action \<open>u_ph[0][0]\<close> from it and that hands the whole
  sequence to \<^verbatim>\<open>set_u_start_from_last_step\<close>.
\<close>

theorem step_returns_whole_sequence:
  assumes "closed_loop_body grad adamw A B dt mpc state t dists = Some (Inr (mpc', state', u_ch))"
  shows "\<exists>u_ph. fst (step grad adamw (set_state (set_time mpc t) state) dists) = Some (Inr u_ph) \<and>
           length u_ph = length dists \<and> u_ph \<noteq> [] \<and> hd u_ph \<noteq> [] \<and>
           u_ch = hd (hd u_ph) \<and>
           set_u_start_from_last_step (set_state (set_time mpc t) state) u_ph = Inr mpc'"
proof -
  from closed_loop_body_Inr[OF assms] obtain u_ph where
    st: "step grad adamw (set_state (set_time mpc t) state) dists =
       (Some (Inr u_ph), set_state (set_time mpc t) state)"
    and rest: "set_u_start_from_last_step (set_state (set_time mpc t) state) u_ph = Inr mpc'"
      "u_ph \<noteq> []" "hd u_ph \<noteq> []" "u_ch = hd (hd u_ph)"
    by blast
  from st have "fst (step grad adamw (set_state (set_time mpc t) state) dists) = Some (Inr u_ph)"
    by simp
  with step_returns_rows[OF this] rest show ?thesis by blast
qed

text \<open>One pass of the main loop on the controller above: the applied action is \<open>-1\<close>.\<close>

theorem step_returns_whole_sequence_witness:
  "closed_loop_body ex_grad ex_adamw ex_A ex_B 1
     (ex_mpc\<lparr>mpc_u_start := [[- 1], [- 2], [0]]\<rparr>) [24, 24, 24] 0 ex_dist =
   Some (Inr ((set_state (set_time ex_mpc 0) [24, 24, 24])\<lparr>mpc_u_start := [[- 2], [0], [0]]\<rparr>,
              [23, 24, 24], - 1)) \<and>
   (\<exists>u_ph. fst (step ex_grad ex_adamw
              (set_state (set_time (ex_mpc\<lparr>mpc_u_start := [[- 1], [- 2], [0]]\<rparr>) 0) [24, 24, 24])
              ex_dist) = Some (Inr u_ph) \<and>
           length u_ph = length ex_dist \<and> u_ph \<noteq> [] \<and> hd u_ph \<noteq> [] \<and>
           - 1 = hd (hd u_ph) \<and>
           set_u_start_from_last_step
             (set_state (set_time (ex_mpc\<lparr>mpc_u_start := [[- 1], [- 2], [0]]\<rparr>) 0) [24, 24, 24]) u_ph =
           Inr ((set_state (set_time ex_mpc 0) [24, 24, 24])\<lparr>mpc_u_start := [[- 2], [0], [0]]\<rparr>))"
  using example_closed_loop step_returns_whole_sequence[OF example_closed_loop]
  by (rule conjI)

subsection \<open>C6: the warm start\<close>

text \<open>
  C6: on a controller with one control variable and the upper bound \<open>ub\<close>, for a sequence
  \<open>u_prev\<close> of \<open>PH \<ge> 1\<close> rows of one entry, \<^verbatim>\<open>set_u_start_from_last_step\<close> changes nothing but
  \<^verbatim>\<open>u_start\<close>, which becomes \<open>u_prev\<close> without its first row and with the row \<open>[ub]\<close> at the
  end: it has \<open>PH\<close> rows, row \<open>i\<close> is row \<open>i + 1\<close> of \<open>u_prev\<close>, and the last row is \<open>[ub]\<close>.
  The loop of \<^verbatim>\<open>MPC.step\<close> on that controller starts from it: its parameters before the first
  pass are this sequence, the optimizer is initialised on it, and the first pass through
  the body is made on it.
\<close>

theorem warm_start_is_shifted_sequence:
  assumes nu: "mpc_NU self = 1" and ub: "mpc_u_ub self = [[ub]]"
    and col: "list_all (\<lambda>r. length r = 1) u_prev"
    and len: "length u_prev = mpc_PH self" and ph: "0 < mpc_PH self"
  shows "\<exists>self'. set_u_start_from_last_step self u_prev = Inr self' \<and>
           self' = self\<lparr>mpc_u_start := mpc_u_start self'\<rparr> \<and>
           mpc_u_start self' = tl u_prev @ [[ub]] \<and>
           length (mpc_u_start self') = mpc_PH self \<and>
           (\<forall>i. Suc i < mpc_PH self \<longrightarrow> mpc_u_start self' ! i = u_prev ! Suc i) \<and>
           mpc_u_start self' ! (mpc_PH self - 1) = [ub] \<and>
           ls_params (step_init adamw self') = mpc_u_start self' \<and>
           (step_ready self' \<longrightarrow>
              step_run grad adamw self' d =
                step_loop grad (adamw (1 / 100)) (step_cost self' d)
                  \<lparr>ls_epoch = 0, ls_loss = BIG_NUMBER, ls_params = mpc_u_start self',
                   ls_opt_state = opt_init (adamw (1 / 100)) (mpc_u_start self'), ls_u_ph = None\<rparr> \<and>
              step_run grad adamw self' d =
                bindC (step_body grad (adamw (1 / 100)) (step_cost self' d)
                         \<lparr>ls_epoch = 0, ls_loss = BIG_NUMBER, ls_params = mpc_u_start self',
                          ls_opt_state = opt_init (adamw (1 / 100)) (mpc_u_start self'),
                          ls_u_ph = None\<rparr>)
                  (step_loop grad (adamw (1 / 100)) (step_cost self' d)))"
proof -
  let ?c = "self\<lparr>mpc_u_start := tl u_prev @ [[ub]]\<rparr>"
  have s: "set_u_start_from_last_step self u_prev = Inr ?c"
    by (rule set_u_start_shift[OF nu ub col])
  have l: "length (tl u_prev @ [[ub]]) = mpc_PH self" using len ph by simp
  have sh: "(tl u_prev @ [[ub]]) ! i = u_prev ! Suc i" if "Suc i < mpc_PH self" for i
  proof -
    have "i < length (tl u_prev)" using that len by simp
    then show ?thesis by (simp add: nth_append nth_tl)
  qed
  have la: "(tl u_prev @ [[ub]]) ! (mpc_PH self - 1) = [ub]"
    using len ph by (simp add: nth_append)
  have run: "step_run grad adamw ?c d =
                step_loop grad (adamw (1 / 100)) (step_cost ?c d)
                  \<lparr>ls_epoch = 0, ls_loss = BIG_NUMBER, ls_params = mpc_u_start ?c,
                   ls_opt_state = opt_init (adamw (1 / 100)) (mpc_u_start ?c), ls_u_ph = None\<rparr>"
    if "step_ready ?c"
    using step_run_ready[OF that, of grad adamw d] by (simp add: step_init_def)
  have run1: "step_run grad adamw ?c d =
                bindC (step_body grad (adamw (1 / 100)) (step_cost ?c d)
                         \<lparr>ls_epoch = 0, ls_loss = BIG_NUMBER, ls_params = mpc_u_start ?c,
                          ls_opt_state = opt_init (adamw (1 / 100)) (mpc_u_start ?c),
                          ls_u_ph = None\<rparr>)
                  (step_loop grad (adamw (1 / 100)) (step_cost ?c d))"
    if "step_ready ?c"
    using step_run_first_pass[OF that, of grad adamw d] by (simp add: step_init_def)
  show ?thesis
    apply (rule exI[of _ ?c])
    using s l sh la run run1 by (simp add: step_init_def)
qed

text \<open>The previous sequence \<open>-5, -1, -2\<close> gives the warm start \<open>-1, -2, 0\<close>.\<close>

theorem warm_start_is_shifted_sequence_witness:
  "mpc_NU (set_state (set_time ex_mpc 0) [24, 24, 24]) = 1 \<and>
   mpc_u_ub (set_state (set_time ex_mpc 0) [24, 24, 24]) = [[0]] \<and>
   list_all (\<lambda>r. length r = 1) [[- 5], [- 1], [- 2 :: fl]] \<and>
   length [[- 5], [- 1], [- 2 :: fl]] = mpc_PH (set_state (set_time ex_mpc 0) [24, 24, 24]) \<and>
   0 < mpc_PH (set_state (set_time ex_mpc 0) [24, 24, 24]) \<and>
   set_u_start_from_last_step (set_state (set_time ex_mpc 0) [24, 24, 24]) [[- 5], [- 1], [- 2]] =
     Inr ((set_state (set_time ex_mpc 0) [24, 24, 24])\<lparr>mpc_u_start := [[- 1], [- 2], [0]]\<rparr>) \<and>
   step_ready ((set_state (set_time ex_mpc 0) [24, 24, 24])\<lparr>mpc_u_start := [[- 1], [- 2], [0]]\<rparr>) \<and>
   step_run ex_grad ex_adamw
       ((set_state (set_time ex_mpc 0) [24, 24, 24])\<lparr>mpc_u_start := [[- 1], [- 2], [0]]\<rparr>) ex_dist =
     step_loop ex_grad (ex_adamw (1 / 100))
       (step_cost ((set_state (set_time ex_mpc 0) [24, 24, 24])\<lparr>mpc_u_start := [[- 1], [- 2], [0]]\<rparr>)
          ex_dist)
       \<lparr>ls_epoch = 0, ls_loss = BIG_NUMBER, ls_params = [[- 1], [- 2], [0]],
        ls_opt_state = (), ls_u_ph = None\<rparr>"
proof -
  have h: "mpc_NU (set_state (set_time ex_mpc 0) [24, 24, 24]) = 1"
    "mpc_u_ub (set_state (set_time ex_mpc 0) [24, 24, 24]) = [[0]]"
    "list_all (\<lambda>r. length r = 1) [[- 5], [- 1], [- 2 :: fl]]"
    "length [[- 5], [- 1], [- 2 :: fl]] = mpc_PH (set_state (set_time ex_mpc 0) [24, 24, 24])"
    "0 < mpc_PH (set_state (set_time ex_mpc 0) [24, 24, 24])"
    by (simp_all add: set_state_def set_time_def MPC_init_u_bounds) (simp_all add: MPC_init_def Let_def)
  from warm_start_is_shifted_sequence[OF h, where grad = ex_grad and adamw = ex_adamw and d = ex_dist]
  obtain c where c: "set_u_start_from_last_step (set_state (set_time ex_mpc 0) [24, 24, 24])
        [[- 5], [- 1], [- 2]] = Inr c"
    "c = (set_state (set_time ex_mpc 0) [24, 24, 24])\<lparr>mpc_u_start := mpc_u_start c\<rparr>"
    "mpc_u_start c = tl [[- 5], [- 1], [- 2]] @ [[0]]"
    "step_ready c \<longrightarrow>
       step_run ex_grad ex_adamw c ex_dist =
         step_loop ex_grad (ex_adamw (1 / 100)) (step_cost c ex_dist)
           \<lparr>ls_epoch = 0, ls_loss = BIG_NUMBER, ls_params = mpc_u_start c,
            ls_opt_state = opt_init (ex_adamw (1 / 100)) (mpc_u_start c), ls_u_ph = None\<rparr>"
    by blast
  from c(2,3) have ceq: "c = (set_state (set_time ex_mpc 0) [24, 24, 24])\<lparr>mpc_u_start := [[- 1], [- 2], [0]]\<rparr>"
    by simp
  from c(1,4) example_step(1) h show ?thesis unfolding ceq by simp
qed

subsection \<open>C7: the controller across a step\<close>

text \<open>
  C7: every call that \<^verbatim>\<open>MPC.step\<close> makes on the controller leaves the controller object as
  it found it, in every field, and returns what the function of the same name gives on
  that object: the calls of \<^verbatim>\<open>get_T_violations\<close>, of \<^verbatim>\<open>get_u_violations\<close> and of \<^verbatim>\<open>loss_mpc\<close>,
  the evaluation of the cost and of its gradient by \<^verbatim>\<open>jax.value_and_grad\<close>, any number \<open>k\<close> of
  passes through the body of the loop of \<^verbatim>\<open>step\<close> from any variables \<open>s\<close>, the loop, and
  \<^verbatim>\<open>MPC.step\<close> itself; so every pass of the optimisation evaluates one and the same cost,
  that of the controller as it was handed to \<^verbatim>\<open>step\<close>. Across one pass of the main loop that
  raises nothing, the controller handed to \<^verbatim>\<open>step\<close> comes back from it unchanged, the
  controller at the end of the pass differs from it in \<^verbatim>\<open>u_start\<close> alone (set by the driver
  after \<^verbatim>\<open>step\<close> has returned), its state and time are the plant state and the time of the
  start of the pass, and the new plant state is made by the driver: the last row that
  \<^verbatim>\<open>forward\<close> returns from the old state under the applied action.
\<close>

theorem step_leaves_controller_unchanged:
  "get_T_violations_call x ts te h d' T_ub T_lb self =
     (get_T_violations self x ts te h d' T_ub T_lb, self) \<and>
   get_u_violations_call u self = (Some (get_u_violations self u), self) \<and>
   loss_mpc_call u x ts te h d' T_ub T_lb price self =
     (loss_mpc self u x ts te h d' T_ub T_lb price, self) \<and>
   value_and_grad_call grad (step_loss_call x ts te d' T_ub T_lb price) u self =
     (value_and_grad grad (\<lambda>q. loss_mpc self q x ts te (mpc_dt self) d' T_ub T_lb price) u, self) \<and>
   step_iter_call grad optimizer (step_loss_call x ts te d' T_ub T_lb price) k s self =
     (step_iter grad optimizer (\<lambda>q. loss_mpc self q x ts te (mpc_dt self) d' T_ub T_lb price) k s,
      self) \<and>
   step_loop_call grad optimizer (step_loss_call x ts te d' T_ub T_lb price) s self =
     (step_loop grad optimizer (\<lambda>q. loss_mpc self q x ts te (mpc_dt self) d' T_ub T_lb price) s,
      self) \<and>
   step grad adamw self d =
     (bindC (step_run grad adamw self d)
        (\<lambda>s. case ls_u_ph s of None \<Rightarrow> Some (Inl UnboundLocalError) | Some u_ph \<Rightarrow> Some (Inr u_ph)),
      self) \<and>
   (closed_loop_body grad adamw A B dt mpc state t dists = Some (Inr (mpc', state', u_ch)) \<longrightarrow>
      snd (step grad adamw (set_state (set_time mpc t) state) dists) = set_state (set_time mpc t) state \<and>
      mpc' = (set_state (set_time mpc t) state)\<lparr>mpc_u_start := mpc_u_start mpc'\<rparr> \<and>
      mpc_state mpc' = Some state \<and> mpc_time mpc' = Some t \<and>
      (\<exists>d0 ts xs. jnp_row dists 0 = Inr d0 \<and>
         forward f t (t + dt) dt state Euler (A, B, at_set [d0] 0 2 u_ch) = Some (Inr (ts, xs)) \<and>
         state' = last xs))"
proof -
  let ?Lc = "step_loss_call x ts te d' T_ub T_lb price"
  let ?L = "\<lambda>q. loss_mpc self q x ts te (mpc_dt self) d' T_ub T_lb price"
  have L: "?Lc q self = (?L q, self)" for q
    by (rule step_loss_call_eq)
  have calls: "get_T_violations_call x ts te h d' T_ub T_lb self =
      (get_T_violations self x ts te h d' T_ub T_lb, self)"
    "get_u_violations_call u self = (Some (get_u_violations self u), self)"
    "loss_mpc_call u x ts te h d' T_ub T_lb price self =
      (loss_mpc self u x ts te h d' T_ub T_lb price, self)"
    by (rule get_T_violations_call_eq, rule get_u_violations_call_eq, rule loss_mpc_call_eq)
  have p1: "value_and_grad_call grad ?Lc u self = (value_and_grad grad ?L u, self)"
    by (rule value_and_grad_call_eq) (rule L)
  have p2: "step_iter_call grad optimizer ?Lc k s self = (step_iter grad optimizer ?L k s, self)"
    by (rule step_iter_call_eq) (rule L)
  have p3: "step_loop_call grad optimizer ?Lc s self = (step_loop grad optimizer ?L s, self)"
    by (rule step_loop_call_eq) (rule L)
  have "snd (step grad adamw (set_state (set_time mpc t) state) dists) = set_state (set_time mpc t) state \<and>
      mpc' = (set_state (set_time mpc t) state)\<lparr>mpc_u_start := mpc_u_start mpc'\<rparr> \<and>
      mpc_state mpc' = Some state \<and> mpc_time mpc' = Some t \<and>
      (\<exists>d0 ts xs. jnp_row dists 0 = Inr d0 \<and>
         forward f t (t + dt) dt state Euler (A, B, at_set [d0] 0 2 u_ch) = Some (Inr (ts, xs)) \<and>
         state' = last xs)"
    if a: "closed_loop_body grad adamw A B dt mpc state t dists = Some (Inr (mpc', state', u_ch))"
  proof -
    from closed_loop_body_Inr[OF a] obtain u_ph d0 ts xs where
      su: "set_u_start_from_last_step (set_state (set_time mpc t) state) u_ph = Inr mpc'"
      and fw: "jnp_row dists 0 = Inr d0"
        "forward f t (t + dt) dt state Euler (A, B, at_set [d0] 0 2 u_ch) = Some (Inr (ts, xs))"
        "state' = last xs"
      by blast
    from su obtain u where "mpc' = (set_state (set_time mpc t) state)\<lparr>mpc_u_start := u\<rparr>"
      by (auto simp: set_u_start_from_last_step_def bindE_def split: sum.splits)
    then have m: "mpc' = (set_state (set_time mpc t) state)\<lparr>mpc_u_start := mpc_u_start mpc'\<rparr>"
      and "mpc_state mpc' = Some state" "mpc_time mpc' = Some t"
      by (simp_all add: set_state_def set_time_def)
    with fw show ?thesis by (auto simp: step_controller)
  qed
  with calls p1 p2 p3 step_eq[of grad adamw self d] show ?thesis by blast
qed

text \<open>
  One pass of the main loop: the plant state goes from \<open>24\<close> to \<open>23\<close> in the driver, after
  \<^verbatim>\<open>step\<close> has handed back the controller with the state \<open>24\<close>.
\<close>

theorem step_leaves_controller_unchanged_witness:
  "closed_loop_body ex_grad ex_adamw ex_A ex_B 1
     (ex_mpc\<lparr>mpc_u_start := [[- 1], [- 2], [0]]\<rparr>) [24, 24, 24] 0 ex_dist =
   Some (Inr ((set_state (set_time ex_mpc 0) [24, 24, 24])\<lparr>mpc_u_start := [[- 2], [0], [0]]\<rparr>,
              [23, 24, 24], - 1)) \<and>
   snd (step ex_grad ex_adamw
          (set_state (set_time (ex_mpc\<lparr>mpc_u_start := [[- 1], [- 2], [0]]\<rparr>) 0) [24, 24, 24]) ex_dist) =
     set_state (set_time (ex_mpc\<lparr>mpc_u_start := [[- 1], [- 2], [0]]\<rparr>) 0) [24, 24, 24] \<and>
   mpc_state ((set_state (set_time ex_mpc 0) [24, 24, 24])\<lparr>mpc_u_start := [[- 2], [0], [0]]\<rparr>) =
     Some [24, 24, 24] \<and>
   mpc_time ((set_state (set_time ex_mpc 0) [24, 24, 24])\<lparr>mpc_u_start := [[- 2], [0], [0]]\<rparr>) =
     Some 0 \<and>
   (\<exists>d0 ts xs. jnp_row ex_dist 0 = Inr d0 \<and>
      forward f 0 (0 + 1) 1 [24, 24, 24] Euler (ex_A, ex_B, at_set [d0] 0 2 (- 1)) =
        Some (Inr (ts, xs)) \<and>
      [23, 24, 24] = last xs)"
  using example_closed_loop
    step_leaves_controller_unchanged[where grad = ex_grad and adamw = ex_adamw
      and self = "set_state (set_time (ex_mpc\<lparr>mpc_u_start := [[- 1], [- 2], [0]]\<rparr>) 0) [24, 24, 24]"
      and d = ex_dist and A = ex_A and B = ex_B and dt = 1
      and mpc = "ex_mpc\<lparr>mpc_u_start := [[- 1], [- 2], [0]]\<rparr>" and state = "[24, 24, 24]" and t = 0
      and dists = ex_dist
      and mpc' = "(set_state (set_time ex_mpc 0) [24, 24, 24])\<lparr>mpc_u_start := [[- 2], [0], [0]]\<rparr>"
      and state' = "[23, 24, 24]" and u_ch = "- 1"]
  by blast

end
